theory Spec2Isabelle
  imports Complex_Main
begin

section \<open>Data model (types.ts)\<close>

text \<open>
  The simulation computes with JavaScript numbers. They are modelled as \<^typ>\<open>real\<close>:
  arithmetic is exact, and the non-finite values a double can take (a division by a zero
  distance or by a zero mass) are not represented; the statements that depend on such a
  division carry the hypothesis that excludes it.
\<close>

datatype StarType =
    BROWN_DWARF | RED_DWARF | YELLOW_DWARF | BINARY_STAR | BLUE_GIANT | NEUTRON_STAR
  | BLACK_HOLE | SUPERMASSIVE_BLACK_HOLE | QUASAR | ROGUE_PLANET

text \<open>The string value of each member of the enum, as UTF-8 bytes.\<close>

fun type_text :: "StarType \<Rightarrow> string" where
  "type_text BROWN_DWARF = ''An'' @ [CHR 0xC3, CHR 0xA3] @ '' Castanha''"
| "type_text RED_DWARF = ''An'' @ [CHR 0xC3, CHR 0xA3] @ '' Vermelha''"
| "type_text YELLOW_DWARF = ''An'' @ [CHR 0xC3, CHR 0xA3] @ '' Amarela (Tipo Sol)''"
| "type_text BINARY_STAR = ''Sistema Bin'' @ [CHR 0xC3, CHR 0xA1] @ ''rio''"
| "type_text BLUE_GIANT = ''Gigante Azul''"
| "type_text NEUTRON_STAR = ''Estrela de N'' @ [CHR 0xC3, CHR 0xAA] @ ''utrons (Pulsar)''"
| "type_text BLACK_HOLE = ''Buraco Negro''"
| "type_text SUPERMASSIVE_BLACK_HOLE = ''Buraco Negro Supermassivo''"
| "type_text QUASAR = ''Quasar''"
| "type_text ROGUE_PLANET = ''Planeta Errante''"

record Position =
  pos_x :: real
  pos_y :: real
  pos_z :: real

record CloudData =
  cloud_id :: string
  cloud_position :: Position
  cloud_mass :: real
  cloud_size :: real
  isCollapsing :: bool
  collapseProgress :: real
  cloud_rotationSpeed :: real

datatype PlanetKind = rocky | gas | ice

record PlanetData =
  planet_id :: string
  distance :: real
  planet_size :: real
  speed :: real
  angle :: real
  planet_color :: string
  planet_type :: PlanetKind
  planet_mass :: "real option"

text \<open>
  \<open>consumedBy\<close> is \<open>string | null | undefined\<close> in the source: \<open>None\<close> stands for both
  null and undefined. \<open>isShredding\<close> is an optional boolean: undefined is read by the
  source only through \<open>!\<close> and \<open>&&\<close>, where it acts as false, so it is \<open>False\<close> here.
\<close>

record StarData =
  ident :: string
  position :: Position
  velocity :: Position
  mass :: real
  stype :: StarType
  radius :: real
  color :: string
  secondaryColor :: "string option"
  emissiveIntensity :: real
  rotationSpeed :: real
  accretionDisk :: bool
  planets :: "PlanetData list"
  age :: real
  consumedBy :: "string option"
  isShredding :: bool

section \<open>Constants (App.tsx)\<close>

definition COLORS_RED :: string where "COLORS_RED = ''#ff4444''"
definition COLORS_YELLOW :: string where "COLORS_YELLOW = ''#ffdd44''"
definition COLORS_BLUE :: string where "COLORS_BLUE = ''#4488ff''"
definition COLORS_WHITE :: string where "COLORS_WHITE = ''#ffffff''"
definition COLORS_PURPLE :: string where "COLORS_PURPLE = ''#aa44ff''"
definition COLORS_BROWN :: string where "COLORS_BROWN = ''#8B4513''"

definition G :: real where "G = 0.5"
definition SOFTENING :: real where "SOFTENING = 2.0"

section \<open>String inclusion\<close>

fun starts_with :: "string \<Rightarrow> string \<Rightarrow> bool" where
  "starts_with s [] = True"
| "starts_with [] (c # cs) = False"
| "starts_with (d # ds) (c # cs) = (d = c \<and> starts_with ds cs)"

text \<open>\<open>s.includes(sub)\<close>: \<open>sub\<close> occurs in \<open>s\<close> at some offset.\<close>

fun includes_str :: "string \<Rightarrow> string \<Rightarrow> bool" where
  "includes_str [] sub = (sub = [])"
| "includes_str (d # ds) sub = (starts_with (d # ds) sub \<or> includes_str ds sub)"

section \<open>Classification of a collapsing cloud (handleCloudClick)\<close>

record Classification =
  cls_type :: StarType
  cls_color :: string
  cls_radius :: real
  cls_intensity :: real
  cls_disk :: bool
  cls_secondaryColor :: "string option"

text \<open>
  The chain of comparisons of handleCloudClick that fixes type, color, radius, intensity,
  disk and secondaryColor from the cloud's mass and the draw \<open>rand = Math.random()\<close>.
  \<open>disk\<close> starts as true and \<open>secondaryColor\<close> as undefined.
\<close>

definition classify :: "real \<Rightarrow> real \<Rightarrow> Classification" where
  "classify m rand =
    (if m < 15 then
       \<lparr>cls_type = BROWN_DWARF, cls_color = COLORS_BROWN, cls_radius = 0.6,
        cls_intensity = 0.5, cls_disk = False, cls_secondaryColor = None\<rparr>
     else if m < 30 then
       \<lparr>cls_type = RED_DWARF, cls_color = COLORS_RED, cls_radius = 0.8,
        cls_intensity = 2, cls_disk = True, cls_secondaryColor = None\<rparr>
     else if m < 60 then
       (if rand > 0.8 then
          \<lparr>cls_type = BINARY_STAR, cls_color = COLORS_YELLOW, cls_radius = 1.2,
           cls_intensity = 4, cls_disk = True, cls_secondaryColor = Some COLORS_RED\<rparr>
        else
          \<lparr>cls_type = YELLOW_DWARF, cls_color = COLORS_YELLOW, cls_radius = 1.5,
           cls_intensity = 5, cls_disk = True, cls_secondaryColor = None\<rparr>)
     else if m < 80 then
       \<lparr>cls_type = BLUE_GIANT, cls_color = COLORS_BLUE, cls_radius = 2.5,
        cls_intensity = 8, cls_disk = True, cls_secondaryColor = None\<rparr>
     else if m < 90 then
       \<lparr>cls_type = NEUTRON_STAR, cls_color = COLORS_WHITE, cls_radius = 0.5,
        cls_intensity = 15, cls_disk = True, cls_secondaryColor = None\<rparr>
     else if m < 98 then
       \<lparr>cls_type = BLACK_HOLE, cls_color = ''#000000'', cls_radius = 1,
        cls_intensity = 0, cls_disk = True, cls_secondaryColor = None\<rparr>
     else
       \<lparr>cls_type = QUASAR, cls_color = COLORS_PURPLE, cls_radius = 3,
        cls_intensity = 20, cls_disk = True, cls_secondaryColor = None\<rparr>)"

text \<open>
  The star that the collapse timer adds to the registry: the cloud's id, position, mass
  and rotation speed, the classification, the drawn velocity and planets, age 0, and the
  two interaction fields cleared.
\<close>

definition newStar :: "CloudData \<Rightarrow> real \<Rightarrow> Position \<Rightarrow> PlanetData list \<Rightarrow> StarData" where
  "newStar cloud rand v ps =
    (let c = classify (cloud_mass cloud) rand in
     \<lparr>ident = cloud_id cloud, position = cloud_position cloud, velocity = v,
      mass = cloud_mass cloud, stype = cls_type c, radius = cls_radius c,
      color = cls_color c, secondaryColor = cls_secondaryColor c,
      emissiveIntensity = cls_intensity c,
      rotationSpeed = cloud_rotationSpeed cloud * 10, accretionDisk = cls_disk c,
      planets = ps, age = 0, consumedBy = None, isShredding = False\<rparr>)"

section \<open>The physics engine (PhysicsSystem)\<close>

subsection \<open>Pair geometry and roles\<close>

definition isBH :: "StarData \<Rightarrow> bool" where
  "isBH b = (includes_str (type_text (stype b)) ''Buraco Negro'' \<or> stype b = QUASAR)"

definition dx :: "StarData \<Rightarrow> StarData \<Rightarrow> real" where
  "dx bodyA bodyB = pos_x (position bodyB) - pos_x (position bodyA)"

definition dy :: "StarData \<Rightarrow> StarData \<Rightarrow> real" where
  "dy bodyA bodyB = pos_y (position bodyB) - pos_y (position bodyA)"

definition dz :: "StarData \<Rightarrow> StarData \<Rightarrow> real" where
  "dz bodyA bodyB = pos_z (position bodyB) - pos_z (position bodyA)"

definition distSq :: "StarData \<Rightarrow> StarData \<Rightarrow> real" where
  "distSq bodyA bodyB =
     dx bodyA bodyB * dx bodyA bodyB + dy bodyA bodyB * dy bodyA bodyB
       + dz bodyA bodyB * dz bodyA bodyB"

definition dist_pair :: "StarData \<Rightarrow> StarData \<Rightarrow> real" where
  "dist_pair bodyA bodyB = sqrt (distSq bodyA bodyB)"

definition combinedRadius :: "StarData \<Rightarrow> StarData \<Rightarrow> real" where
  "combinedRadius bodyA bodyB = radius bodyA + radius bodyB"

definition mergeThreshold :: "StarData \<Rightarrow> StarData \<Rightarrow> real" where
  "mergeThreshold bodyA bodyB = combinedRadius bodyA bodyB * 0.4"

definition captureRadius :: "StarData \<Rightarrow> StarData \<Rightarrow> real" where
  "captureRadius bodyA bodyB = combinedRadius bodyA bodyB * 6.0"

definition feedingThreshold :: "StarData \<Rightarrow> StarData \<Rightarrow> real" where
  "feedingThreshold bodyA bodyB =
     combinedRadius bodyA bodyB * (if isBH bodyA \<or> isBH bodyB then 8 else 0)"

text \<open>
  \<open>winner\<close> and \<open>loser\<close> are references to \<open>bodyA\<close> and \<open>bodyB\<close>; the model keeps which
  of the two the winner is. It starts as \<open>bodyA\<close> and is switched by the two tests of the
  source, in their order.
\<close>

definition winner_is_B :: "StarData \<Rightarrow> StarData \<Rightarrow> bool" where
  "winner_is_B bodyA bodyB =
     (if isBH bodyB \<and> \<not> isBH bodyA then True
      else if mass bodyB > mass bodyA \<and> \<not> isBH bodyA then True
      else False)"

definition winner :: "StarData \<Rightarrow> StarData \<Rightarrow> StarData" where
  "winner bodyA bodyB = (if winner_is_B bodyA bodyB then bodyB else bodyA)"

definition loser :: "StarData \<Rightarrow> StarData \<Rightarrow> StarData" where
  "loser bodyA bodyB = (if winner_is_B bodyA bodyB then bodyA else bodyB)"

subsection \<open>Standard gravity\<close>

definition force :: "StarData \<Rightarrow> StarData \<Rightarrow> real" where
  "force bodyA bodyB = (G * mass bodyA * mass bodyB) / (distSq bodyA bodyB + SOFTENING)"

definition fx :: "StarData \<Rightarrow> StarData \<Rightarrow> real" where
  "fx bodyA bodyB = force bodyA bodyB * dx bodyA bodyB / dist_pair bodyA bodyB"

definition fy :: "StarData \<Rightarrow> StarData \<Rightarrow> real" where
  "fy bodyA bodyB = force bodyA bodyB * dy bodyA bodyB / dist_pair bodyA bodyB"

definition fz :: "StarData \<Rightarrow> StarData \<Rightarrow> real" where
  "fz bodyA bodyB = force bodyA bodyB * dz bodyA bodyB / dist_pair bodyA bodyB"

definition gravity :: "real \<Rightarrow> StarData \<Rightarrow> StarData \<Rightarrow> StarData \<times> StarData" where
  "gravity dt bodyA bodyB =
     (bodyA\<lparr>velocity :=
        \<lparr>pos_x = pos_x (velocity bodyA) + (fx bodyA bodyB / mass bodyA) * dt,
         pos_y = pos_y (velocity bodyA) + (fy bodyA bodyB / mass bodyA) * dt,
         pos_z = pos_z (velocity bodyA) + (fz bodyA bodyB / mass bodyA) * dt\<rparr>\<rparr>,
      bodyB\<lparr>velocity :=
        \<lparr>pos_x = pos_x (velocity bodyB) - (fx bodyA bodyB / mass bodyB) * dt,
         pos_y = pos_y (velocity bodyB) - (fy bodyA bodyB / mass bodyB) * dt,
         pos_z = pos_z (velocity bodyB) - (fz bodyA bodyB / mass bodyB) * dt\<rparr>\<rparr>)"

subsection \<open>Orbital capture and stabilization\<close>

definition relVx :: "StarData \<Rightarrow> StarData \<Rightarrow> real" where
  "relVx bodyA bodyB = pos_x (velocity bodyB) - pos_x (velocity bodyA)"

definition relVy :: "StarData \<Rightarrow> StarData \<Rightarrow> real" where
  "relVy bodyA bodyB = pos_y (velocity bodyB) - pos_y (velocity bodyA)"

definition relVz :: "StarData \<Rightarrow> StarData \<Rightarrow> real" where
  "relVz bodyA bodyB = pos_z (velocity bodyB) - pos_z (velocity bodyA)"

definition radialVel :: "StarData \<Rightarrow> StarData \<Rightarrow> real" where
  "radialVel bodyA bodyB =
     relVx bodyA bodyB * (dx bodyA bodyB / dist_pair bodyA bodyB)
       + relVy bodyA bodyB * (dy bodyA bodyB / dist_pair bodyA bodyB)
       + relVz bodyA bodyB * (dz bodyA bodyB / dist_pair bodyA bodyB)"

definition damping :: "real \<Rightarrow> StarData \<Rightarrow> StarData \<Rightarrow> real" where
  "damping dt bodyA bodyB = (if radialVel bodyA bodyB > 0 then 0.1 * dt else 0.005 * dt)"

text \<open>The body of the capture block: friction on both bodies, split by the other's mass.\<close>

definition capture :: "real \<Rightarrow> StarData \<Rightarrow> StarData \<Rightarrow> StarData \<times> StarData" where
  "capture dt bodyA bodyB =
     (let fDampX = relVx bodyA bodyB * damping dt bodyA bodyB;
          fDampY = relVy bodyA bodyB * damping dt bodyA bodyB;
          fDampZ = relVz bodyA bodyB * damping dt bodyA bodyB;
          shareA = mass bodyB / (mass bodyA + mass bodyB);
          shareB = mass bodyA / (mass bodyA + mass bodyB)
      in (bodyA\<lparr>velocity :=
            \<lparr>pos_x = pos_x (velocity bodyA) + fDampX * shareA,
             pos_y = pos_y (velocity bodyA) + fDampY * shareA,
             pos_z = pos_z (velocity bodyA) + fDampZ * shareA\<rparr>\<rparr>,
          bodyB\<lparr>velocity :=
            \<lparr>pos_x = pos_x (velocity bodyB) - fDampX * shareB,
             pos_y = pos_y (velocity bodyB) - fDampY * shareB,
             pos_z = pos_z (velocity bodyB) - fDampZ * shareB\<rparr>\<rparr>))"

subsection \<open>Feeding and merging\<close>

datatype event =
    Merger string string
  | MassTransfer string string real

text \<open>The final merger: what the source assigns to the winner, from winner \<open>w\<close> and loser \<open>l\<close>.\<close>

definition merge_into :: "StarData \<Rightarrow> StarData \<Rightarrow> StarData" where
  "merge_into w l =
     (let totalMass = mass w + mass l in
      w\<lparr>velocity :=
          \<lparr>pos_x = (pos_x (velocity w) * mass w + pos_x (velocity l) * mass l) / totalMass,
           pos_y = (pos_y (velocity w) * mass w + pos_y (velocity l) * mass l) / totalMass,
           pos_z = (pos_z (velocity w) * mass w + pos_z (velocity l) * mass l) / totalMass\<rparr>,
        mass := totalMass,
        radius := (radius w ^ 3 + radius l ^ 3) powr (1 / 3)\<rparr>)"

text \<open>
  The feeding branch for the loser \<open>l\<close> under winner \<open>w\<close>: the two flags, then the spiral
  drag, which subtracts the relative velocity of \<open>bodyB\<close> with respect to \<open>bodyA\<close> whichever
  of the two the loser is.
\<close>

definition shred :: "real \<Rightarrow> StarData \<Rightarrow> StarData \<Rightarrow> StarData \<Rightarrow> StarData \<Rightarrow> StarData" where
  "shred dt bodyA bodyB w l =
     (let spiralDrag = 0.05 * dt in
      l\<lparr>consumedBy := Some (ident w), isShredding := True,
        velocity :=
          \<lparr>pos_x = pos_x (velocity l) - relVx bodyA bodyB * spiralDrag,
           pos_y = pos_y (velocity l) - relVy bodyA bodyB * spiralDrag,
           pos_z = pos_z (velocity l) - relVz bodyA bodyB * spiralDrag\<rparr>\<rparr>)"

text \<open>
  The first part of an iteration of the inner loop on the pair \<open>(bodyA, bodyB)\<close>: gravity,
  then the capture block when the pair is in the capture zone. This is the state of the
  two bodies when the feeding branch calls \<open>onMassTransfer\<close>.
\<close>

definition approach :: "real \<Rightarrow> StarData \<Rightarrow> StarData \<Rightarrow> StarData \<times> StarData" where
  "approach dt bodyA bodyB =
     (case gravity dt bodyA bodyB of (a1, b1) \<Rightarrow>
        if dist_pair bodyA bodyB < captureRadius bodyA bodyB
           \<and> dist_pair bodyA bodyB > mergeThreshold bodyA bodyB
        then capture dt a1 b1 else (a1, b1))"

text \<open>
  One iteration of the inner loop on the pair \<open>(bodyA, bodyB)\<close>. The result is the flag
  "the tick returns here", the two bodies as the iteration leaves them, and the callbacks
  it made. Distances, thresholds and roles are computed once, from the bodies at entry.
\<close>

definition interact :: "real \<Rightarrow> StarData \<Rightarrow> StarData \<Rightarrow> bool \<times> StarData \<times> StarData \<times> event list" where
  "interact dt bodyA bodyB =
     (case approach dt bodyA bodyB of (a2, b2) \<Rightarrow>
      if dist_pair bodyA bodyB < mergeThreshold bodyA bodyB then
        (if winner_is_B bodyA bodyB
         then (True, a2, merge_into b2 a2, [Merger (ident b2) (ident a2)])
         else (True, merge_into a2 b2, b2, [Merger (ident a2) (ident b2)]))
      else if dist_pair bodyA bodyB < feedingThreshold bodyA bodyB then
        (let transferRate = 0.1 * dt in
         if winner_is_B bodyA bodyB then
           (if mass a2 > 0.1
            then (False, shred dt a2 b2 b2 a2, b2, [MassTransfer (ident a2) (ident b2) transferRate])
            else (False, a2, b2, []))
         else
           (if mass b2 > 0.1
            then (False, a2, shred dt a2 b2 a2 b2, [MassTransfer (ident b2) (ident a2) transferRate])
            else (False, a2, b2, [])))
      else (False, a2, b2, []))"

subsection \<open>The state updates requested during a tick\<close>

text \<open>
  The two callbacks end in \<open>setStars(updater)\<close>. React runs an updater at the call when no
  update of the component is pending, and keeps the state it returns for the next render
  unless it is the current state itself; once an update is pending, later updaters wait
  for the render and run then, in order, on the pending state.

  During a tick the state of React is therefore either \<open>Idle\<close> (the registry is the array
  the tick mutates) or \<open>Pending\<close> with the array computed at the call and the updaters
  that wait. The entries of that array are the objects of the tick's array, by index, or
  the copy that the updater of handleMassTransfer makes with
  \<open>{...newStars[sourceIndex], consumedBy, isShredding}\<close>: the copy has its own top-level
  fields and shares the \<open>position\<close> and \<open>velocity\<close> objects of the original, which the
  tick goes on mutating.
\<close>

datatype entry = Ref nat | Copy nat StarData

fun slot :: "entry \<Rightarrow> nat" where
  "slot (Ref k) = k"
| "slot (Copy k c) = k"

datatype pending = Idle | Pending "entry list" "event list"

text \<open>\<open>findIndex\<close> of JavaScript; \<open>None\<close> stands for \<open>-1\<close>.\<close>

fun findIndex :: "('a \<Rightarrow> bool) \<Rightarrow> 'a list \<Rightarrow> nat option" where
  "findIndex P [] = None"
| "findIndex P (s # ss) = (if P s then Some 0 else map_option Suc (findIndex P ss))"

text \<open>
  A callback made while the tick's array is \<open>cur\<close>. handleMerger looks both ids up in the
  array and requests the removal of the loser only if it finds them; handleMassTransfer
  always requests its update. A request made when nothing is pending runs at once on
  \<open>cur\<close>; the updater of handleMassTransfer then either makes the copy or returns the
  state it was given, which leaves nothing pending.
\<close>

fun notify :: "StarData list \<Rightarrow> event \<Rightarrow> pending \<Rightarrow> pending" where
  "notify cur (MassTransfer sourceId targetId amount) Idle =
     (case findIndex (\<lambda>s. ident s = sourceId) cur of
        None \<Rightarrow> Idle
      | Some sourceIndex \<Rightarrow>
          (case findIndex (\<lambda>s. ident s = targetId) cur of
             None \<Rightarrow> Idle
           | Some targetIndex \<Rightarrow>
               if \<not> isShredding (cur ! sourceIndex)
               then Pending
                      ((map Ref [0 ..< length cur])[sourceIndex :=
                         Copy sourceIndex
                           ((cur ! sourceIndex)\<lparr>consumedBy := Some targetId, isShredding := True\<rparr>)])
                      []
               else Idle))"
| "notify cur (MassTransfer sourceId targetId amount) (Pending es q) =
     Pending es (q @ [MassTransfer sourceId targetId amount])"
| "notify cur (Merger winnerId loserId) p =
     (case (find (\<lambda>s. ident s = winnerId) cur, find (\<lambda>s. ident s = loserId) cur) of
        (Some w, Some l) \<Rightarrow>
          (case p of
             Idle \<Rightarrow> Pending (map Ref (filter (\<lambda>k. ident (cur ! k) \<noteq> loserId) [0 ..< length cur])) []
           | Pending es q \<Rightarrow> Pending es (q @ [Merger winnerId loserId]))
      | _ \<Rightarrow> p)"

subsection \<open>The two nested iterations of one tick\<close>

text \<open>
  The array is never resized during a tick, so \<open>for (j = i + 1; j < stars.length; j++)\<close>
  visits the indices \<open>[i + 1 ..< length stars]\<close> in order; the two functions recurse on that list.
  The array holds references to distinct objects, \<open>i < j\<close>, and the mutation of the two
  bodies is the update of the two entries.

  \<open>onMerger\<close> is called after the winner has been assigned, \<open>onMassTransfer\<close> before the
  loser's flags and the drag are: \<open>at_call\<close> is the array at that moment.
\<close>

definition at_call :: "real \<Rightarrow> nat \<Rightarrow> nat \<Rightarrow> StarData list \<Rightarrow> bool \<Rightarrow> StarData list \<Rightarrow> StarData list" where
  "at_call dt i j stars merged after =
     (if merged then after
      else (case approach dt (stars ! i) (stars ! j) of (a2, b2) \<Rightarrow> stars[i := a2, j := b2]))"

fun inner_loop ::
  "real \<Rightarrow> nat \<Rightarrow> nat list \<Rightarrow> StarData list \<Rightarrow> event list \<Rightarrow> pending
     \<Rightarrow> bool \<times> StarData list \<times> event list \<times> pending" where
  "inner_loop dt i [] stars evs p = (False, stars, evs, p)"
| "inner_loop dt i (j # js) stars evs p =
     (case interact dt (stars ! i) (stars ! j) of (merged, a', b', es) \<Rightarrow>
        (let after = stars[i := a', j := b'];
             p' = fold (notify (at_call dt i j stars merged after)) es p
         in if merged then (True, after, evs @ es, p')
            else inner_loop dt i js after (evs @ es) p'))"

fun outer_loop ::
  "real \<Rightarrow> nat list \<Rightarrow> StarData list \<Rightarrow> event list \<Rightarrow> pending
     \<Rightarrow> bool \<times> StarData list \<times> event list \<times> pending" where
  "outer_loop dt [] stars evs p = (False, stars, evs, p)"
| "outer_loop dt (i # ks) stars evs p =
     (case inner_loop dt i [Suc i ..< length stars] stars evs p of (merged, stars', evs', p') \<Rightarrow>
        if merged then (True, stars', evs', p') else outer_loop dt ks stars' evs' p')"

definition older :: "real \<Rightarrow> StarData \<Rightarrow> StarData" where
  "older dt star = star\<lparr>age := age star + dt * 10\<rparr>"

definition advance :: "real \<Rightarrow> StarData \<Rightarrow> StarData" where
  "advance dt star =
     star\<lparr>position :=
       \<lparr>pos_x = pos_x (position star) + pos_x (velocity star) * dt,
        pos_y = pos_y (position star) + pos_y (velocity star) * dt,
        pos_z = pos_z (position star) + pos_z (velocity star) * dt\<rparr>\<rparr>"

text \<open>
  The frame callback: the bodies of the array after the tick, the callbacks made, in
  order, and the state updates they left pending. A merger returns from the callback, so
  the position pass is not reached on that path.
\<close>

definition tick :: "real \<Rightarrow> real \<Rightarrow> StarData list \<Rightarrow> StarData list \<times> event list \<times> pending" where
  "tick delta timeScale stars =
     (let dt = delta * timeScale in
      if dt = 0 then (stars, [], Idle)
      else
        (let aged = (if dt > 0 then map (older dt) stars else stars) in
         case outer_loop dt [0 ..< length aged] aged [] Idle of (merged, stars', evs, p) \<Rightarrow>
           if merged then (stars', evs, p) else (map (advance dt) stars', evs, p)))"

text \<open>What the tick does to the array it is given, and the callbacks it makes.\<close>

definition PhysicsSystem :: "real \<Rightarrow> real \<Rightarrow> StarData list \<Rightarrow> StarData list \<times> event list" where
  "PhysicsSystem delta timeScale stars =
     (case tick delta timeScale stars of (stars', evs, p) \<Rightarrow> (stars', evs))"

section \<open>The registry (App)\<close>

text \<open>
  The state of App that the simulation reads and writes. The log, the loading and audio
  flags and the zoom mode are display state and are left out; \<open>timeScale\<close> is passed to
  each frame.
\<close>

record AppState =
  clouds :: "CloudData list"
  stars :: "StarData list"
  focusedId :: "string option"

text \<open>
  handleMerger looks both bodies up, removes the entries with the loser's id, and moves
  the focus if it was on the loser (the log entry it also writes is not modelled).
\<close>

definition handleMerger :: "string \<Rightarrow> string \<Rightarrow> AppState \<Rightarrow> AppState" where
  "handleMerger winnerId loserId st =
     (case (find (\<lambda>s. ident s = winnerId) (stars st), find (\<lambda>s. ident s = loserId) (stars st)) of
        (Some w, Some l) \<Rightarrow>
          st\<lparr>stars := filter (\<lambda>s. ident s \<noteq> loserId) (stars st),
             focusedId := (if focusedId st = Some loserId then Some winnerId else focusedId st)\<rparr>
      | _ \<Rightarrow> st)"

text \<open>
  handleMassTransfer marks the source body on its first transfer and returns the previous
  state otherwise; it does not read \<open>amount\<close>.
\<close>

definition handleMassTransfer :: "string \<Rightarrow> string \<Rightarrow> real \<Rightarrow> AppState \<Rightarrow> AppState" where
  "handleMassTransfer sourceId targetId amount st =
     (case findIndex (\<lambda>s. ident s = sourceId) (stars st) of
        None \<Rightarrow> st
      | Some sourceIndex \<Rightarrow>
          (case findIndex (\<lambda>s. ident s = targetId) (stars st) of
             None \<Rightarrow> st
           | Some targetIndex \<Rightarrow>
               if \<not> isShredding (stars st ! sourceIndex)
               then st\<lparr>stars := (stars st)[sourceIndex :=
                      (stars st ! sourceIndex)\<lparr>consumedBy := Some targetId, isShredding := True\<rparr>]\<rparr>
               else st))"

text \<open>The timer callback of handleCloudClick: the cloud leaves, the star enters, focus moves.\<close>

definition materialize :: "CloudData \<Rightarrow> real \<Rightarrow> Position \<Rightarrow> PlanetData list \<Rightarrow> AppState \<Rightarrow> AppState" where
  "materialize cloud rand v ps st =
     st\<lparr>clouds := filter (\<lambda>c. cloud_id c \<noteq> cloud_id cloud) (clouds st),
        stars := stars st @ [newStar cloud rand v ps],
        focusedId := Some (cloud_id cloud)\<rparr>"

text \<open>
  The updaters as functions of the state they are given at the render: the filter of
  handleMerger and the marking of handleMassTransfer.
\<close>

fun updater :: "event \<Rightarrow> StarData list \<Rightarrow> StarData list" where
  "updater (Merger winnerId loserId) prev = filter (\<lambda>s. ident s \<noteq> loserId) prev"
| "updater (MassTransfer sourceId targetId amount) prev =
     (case findIndex (\<lambda>s. ident s = sourceId) prev of
        None \<Rightarrow> prev
      | Some sourceIndex \<Rightarrow>
          (case findIndex (\<lambda>s. ident s = targetId) prev of
             None \<Rightarrow> prev
           | Some targetIndex \<Rightarrow>
               if \<not> isShredding (prev ! sourceIndex)
               then prev[sourceIndex :=
                      (prev ! sourceIndex)\<lparr>consumedBy := Some targetId, isShredding := True\<rparr>]
               else prev))"

text \<open>
  An entry of the pending array, read when the tick is over and the array is \<open>final\<close>: the
  object itself, or the copy with the position and velocity it shares with the original.
\<close>

fun resolve :: "StarData list \<Rightarrow> entry \<Rightarrow> StarData" where
  "resolve final (Ref k) = final ! k"
| "resolve final (Copy k c) = c\<lparr>position := position (final ! k), velocity := velocity (final ! k)\<rparr>"

fun render :: "StarData list \<Rightarrow> pending \<Rightarrow> StarData list" where
  "render final Idle = final"
| "render final (Pending es q) = fold updater q (map (resolve final) es)"

text \<open>
  The focus after a callback: handleMerger moves it from the loser to the winner when it
  finds both bodies. It compares with the focus of the render the tick runs in, \<open>f0\<close>, and
  looks the ids up in that render's array (no statement assigns an id, so the array at
  the start of the tick has the ids of the array at the call).
\<close>

fun refocus :: "StarData list \<Rightarrow> string option \<Rightarrow> event \<Rightarrow> string option \<Rightarrow> string option" where
  "refocus ss f0 (Merger winnerId loserId) f =
     (case (find (\<lambda>s. ident s = winnerId) ss, find (\<lambda>s. ident s = loserId) ss) of
        (Some w, Some l) \<Rightarrow> (if f0 = Some loserId then Some winnerId else f)
      | _ \<Rightarrow> f)"
| "refocus ss f0 (MassTransfer sourceId targetId amount) f = f"

text \<open>
  One rendered frame: the tick mutates the bodies of the registry in place and makes its
  callbacks; the next render has the pending state of the stars, with the waiting
  updaters applied, or the mutated array itself when nothing is pending.
\<close>

definition frame :: "real \<Rightarrow> real \<Rightarrow> AppState \<Rightarrow> AppState" where
  "frame delta timeScale st =
     (case tick delta timeScale (stars st) of (final, evs, p) \<Rightarrow>
        st\<lparr>stars := render final p,
           focusedId := fold (refocus (stars st) (focusedId st)) evs (focusedId st)\<rparr>)"

text \<open>
  generateUniverse replaces the clouds by new ones and the stars by rogue planets with
  new ids, drawn positions and velocities, and \<open>consumedBy\<close> and \<open>isShredding\<close> left
  undefined; it clears the focus. The draws are parameters (the source makes three).
\<close>

definition roguePlanet :: "string \<Rightarrow> Position \<Rightarrow> Position \<Rightarrow> StarData" where
  "roguePlanet i p v =
     \<lparr>ident = i, position = p, velocity = v, mass = 0.5, stype = ROGUE_PLANET,
      radius = 0.3, color = ''#556677'', secondaryColor = None, emissiveIntensity = 0,
      rotationSpeed = 1, accretionDisk = False, planets = [], age = 10000,
      consumedBy = None, isShredding = False\<rparr>"

definition generateUniverse ::
  "CloudData list \<Rightarrow> (string \<times> Position \<times> Position) list \<Rightarrow> AppState \<Rightarrow> AppState" where
  "generateUniverse newClouds draws st =
     st\<lparr>clouds := newClouds,
        stars := map (\<lambda>(i, p, v). roguePlanet i p v) draws,
        focusedId := None\<rparr>"

section \<open>Runs of operations\<close>

text \<open>
  The ways the source changes the registry of stars, as a datatype, to state what holds
  after any sequence of them: a rendered frame, a call of either handler, the birth of a
  star from a cloud, a reset of the universe.
\<close>

datatype operation =
    Frame real real
  | CallMerger string string
  | CallMassTransfer string string real
  | Materialize CloudData real Position "PlanetData list"
  | Reset "CloudData list" "(string \<times> Position \<times> Position) list"

fun apply_operation :: "operation \<Rightarrow> AppState \<Rightarrow> AppState" where
  "apply_operation (Frame delta timeScale) st = frame delta timeScale st"
| "apply_operation (CallMerger winnerId loserId) st = handleMerger winnerId loserId st"
| "apply_operation (CallMassTransfer sourceId targetId amount) st =
     handleMassTransfer sourceId targetId amount st"
| "apply_operation (Materialize cloud rand v ps) st = materialize cloud rand v ps st"
| "apply_operation (Reset newClouds draws) st = generateUniverse newClouds draws st"

fun run :: "operation list \<Rightarrow> AppState \<Rightarrow> AppState" where
  "run [] st = st"
| "run (opn # ops) st = run ops (apply_operation opn st)"

text \<open>The ids an operation gives to the bodies it creates (they come from uuidv4).\<close>

fun created :: "operation \<Rightarrow> string list" where
  "created (Materialize cloud rand v ps) = [cloud_id cloud]"
| "created (Reset newClouds draws) = map fst draws"
| "created _ = []"

text \<open>
  A run is admissible when every id drawn for a new body is new: it differs from the ids
  in the registry at that moment and from the other ids drawn with it.
\<close>

fun admissible :: "operation list \<Rightarrow> AppState \<Rightarrow> bool" where
  "admissible [] st = True"
| "admissible (opn # ops) st =
     (distinct (created opn)
      \<and> list_all (\<lambda>i. i \<notin> set (map ident (stars st))) (created opn)
      \<and> admissible ops (apply_operation opn st))"

fun is_Merger :: "event \<Rightarrow> bool" where
  "is_Merger (Merger winnerId loserId) = True"
| "is_Merger (MassTransfer sourceId targetId amount) = False"

text \<open>
  What every operation keeps of a body: its id, and each of the two interaction fields
  once it is set.
\<close>

definition kept :: "StarData \<Rightarrow> StarData \<Rightarrow> bool" where
  "kept s s' =
     (ident s' = ident s
      \<and> (isShredding s \<longrightarrow> isShredding s')
      \<and> (consumedBy s \<noteq> None \<longrightarrow> consumedBy s' \<noteq> None))"

text \<open>The two interaction fields agree: \<open>isShredding\<close> is true exactly when \<open>consumedBy\<close> is set.\<close>

definition coupled :: "StarData \<Rightarrow> bool" where
  "coupled s = (isShredding s = (consumedBy s \<noteq> None))"

text \<open>
  What holds of the pending array during a tick that started from the array \<open>ss0\<close>: every
  entry is in range, a copy keeps the id and the set fields of the body it copies and has
  both fields set, and no index occurs twice.
\<close>

definition entry_ok :: "StarData list \<Rightarrow> entry \<Rightarrow> bool" where
  "entry_ok ss0 e =
     (slot e < length ss0
      \<and> (case e of Ref k \<Rightarrow> True | Copy k c \<Rightarrow> kept (ss0 ! k) c \<and> coupled c))"

definition pending_ok :: "StarData list \<Rightarrow> pending \<Rightarrow> bool" where
  "pending_ok ss0 p =
     (case p of Idle \<Rightarrow> True
      | Pending es q \<Rightarrow> list_all (entry_ok ss0) es \<and> distinct (map slot es))"

section \<open>Example bodies\<close>

definition vec :: "real \<Rightarrow> real \<Rightarrow> real \<Rightarrow> Position" where
  "vec a b c = \<lparr>pos_x = a, pos_y = b, pos_z = c\<rparr>"

definition body :: "string \<Rightarrow> StarType \<Rightarrow> real \<Rightarrow> real \<Rightarrow> Position \<Rightarrow> Position \<Rightarrow> StarData" where
  "body i t m r p v =
     \<lparr>ident = i, position = p, velocity = v, mass = m, stype = t, radius = r,
      color = ''#ffffff'', secondaryColor = None, emissiveIntensity = 1, rotationSpeed = 1,
      accretionDisk = False, planets = [], age = 0, consumedBy = None, isShredding = False\<rparr>"

text \<open>Two stars of masses 10 and 20, radii 1.0 and 1.5, 0.3 apart: inside the merge threshold.\<close>

definition small_star :: StarData where
  "small_star = body ''small'' BROWN_DWARF 10 1.0 (vec 0 0 0) (vec 1 0 0)"

definition big_star :: StarData where
  "big_star = body ''big'' RED_DWARF 20 1.5 (vec 0.3 0 0) (vec 1 0 0)"

text \<open>
  A black hole of mass 90 and a yellow dwarf of mass 40, 16 apart: the combined radius is
  2.5, so the pair is outside the merge threshold (1) and the capture radius (15) and inside
  the feeding threshold (20).
\<close>

definition hole_at :: "Position \<Rightarrow> Position \<Rightarrow> StarData" where
  "hole_at p v = body ''hole'' BLACK_HOLE 90 1 p v"

definition dwarf_at :: "Position \<Rightarrow> Position \<Rightarrow> StarData" where
  "dwarf_at p v = body ''dwarf'' YELLOW_DWARF 40 1.5 p v"

definition registry :: "StarData list \<Rightarrow> AppState" where
  "registry ss = \<lparr>clouds = [], stars = ss, focusedId = None\<rparr>"

text \<open>
  Two black holes 0.3 apart (merge threshold 0.8) and a dwarf far away that the second
  black hole has been feeding on.
\<close>

definition hole_A :: StarData where
  "hole_A = body ''A'' BLACK_HOLE 95 1 (vec 0 0 0) (vec 0 0 0)"

definition hole_B :: StarData where
  "hole_B = body ''B'' BLACK_HOLE 90 1 (vec 0.3 0 0) (vec 0 0 0)"

definition prey_C :: StarData where
  "prey_C = (body ''C'' YELLOW_DWARF 40 1.5 (vec 1000 0 0) (vec 0 0 0))
              \<lparr>consumedBy := Some ''B'', isShredding := True\<rparr>"

definition quasar_Q :: StarData where
  "quasar_Q = body ''Q'' QUASAR 99 3 (vec 50 0 0) (vec 0 0 0)"

text \<open>The feeding pair in both orders, and the dwarf with the fields a feeding left.\<close>

definition hole_first :: "StarData list" where
  "hole_first = [hole_at (vec 0 0 0) (vec 0 0 0), dwarf_at (vec 16 0 0) (vec 0 1 0)]"

definition dwarf_first :: "StarData list" where
  "dwarf_first = [dwarf_at (vec 0 0 0) (vec 0 0 0), hole_at (vec 16 0 0) (vec 0 1 0)]"

definition fed_dwarf :: StarData where
  "fed_dwarf = (dwarf_at (vec 16 0 0) (vec 0 1 0))\<lparr>consumedBy := Some ''B'', isShredding := True\<rparr>"

definition three_bodies :: "StarData list" where
  "three_bodies = [hole_A, hole_B, prey_C]"

text \<open>
  The feeding pair and, 0.5 beyond the dwarf, a brown dwarf of mass 10 and radius 0.6:
  inside the merge threshold of the two dwarfs (0.84) and outside the feeding threshold
  of the black hole and the brown dwarf (12.8).
\<close>

definition fed_then_merging :: "StarData list" where
  "fed_then_merging =
     [hole_at (vec 0 0 0) (vec 0 0 0), dwarf_at (vec 16 0 0) (vec 0 0 0),
      body ''brown'' BROWN_DWARF 10 0.6 (vec 16.5 0 0) (vec 0 0 0)]"

text \<open>A yellow dwarf in the feeding zones of two black holes, 16 from each.\<close>

definition two_feeders :: "StarData list" where
  "two_feeders =
     [body ''H1'' BLACK_HOLE 90 1 (vec 0 0 0) (vec 0 0 0), dwarf_at (vec 16 0 0) (vec 0 0 0),
      body ''H2'' BLACK_HOLE 90 1 (vec 32 0 0) (vec 0 0 0)]"

definition cloud_X :: CloudData where
  "cloud_X = \<lparr>cloud_id = ''X'', cloud_position = vec 100 0 0, cloud_mass = 50, cloud_size = 5,
     isCollapsing = True, collapseProgress = 0, cloud_rotationSpeed = 0.2\<rparr>"

definition sample_run :: "operation list" where
  "sample_run =
     [Frame 1 1, CallMassTransfer ''dwarf'' ''hole'' 0.1, CallMerger ''hole'' ''nobody'',
      Materialize cloud_X 0.5 (vec 0 0 0) [], Frame 0.016 0]"

section \<open>Auxiliary facts\<close>

lemma isBH_iff:
  "isBH b \<longleftrightarrow> stype b = BLACK_HOLE \<or> stype b = SUPERMASSIVE_BLACK_HOLE \<or> stype b = QUASAR"
  by (cases "stype b") (simp_all add: isBH_def)

lemma sqrt_9_100: "sqrt (9 / 100) = 3 / 10"
  by (rule real_sqrt_unique) (simp_all add: power2_eq_square)

lemma sqrt_256: "sqrt 256 = 16"
  by (rule real_sqrt_unique) simp_all

lemma sqrt_1024: "sqrt 1024 = 32"
  by (rule real_sqrt_unique) simp_all

lemma sqrt_1089_4: "sqrt (1089 / 4) = 33 / 2"
  by (rule real_sqrt_unique) (simp_all add: power2_eq_square)

lemma sqrt_1_4: "sqrt (1 / 4) = 1 / 2"
  by (rule real_sqrt_unique) (simp_all add: power2_eq_square)

lemma dist_merge_example: "dist_pair small_star big_star = 3 / 10"
  by (simp add: dist_pair_def distSq_def dx_def dy_def dz_def small_star_def big_star_def
      body_def vec_def sqrt_9_100)

lemma dist_feed_example: "dist_pair (hole_at (vec 0 0 0) v) (dwarf_at (vec 16 0 0) u) = 16"
  by (simp add: dist_pair_def distSq_def dx_def dy_def dz_def hole_at_def dwarf_at_def
      body_def vec_def sqrt_256)

lemma sq_sum_force:
  assumes "0 < dist_pair a b"
  shows "(fx a b)\<^sup>2 + (fy a b)\<^sup>2 + (fz a b)\<^sup>2 = (force a b)\<^sup>2"
proof -
  have d: "(dist_pair a b)\<^sup>2 = distSq a b"
    using assms unfolding dist_pair_def
    by (metis less_eq_real_def real_sqrt_ge_0_iff real_sqrt_pow2)
  have "(fx a b)\<^sup>2 + (fy a b)\<^sup>2 + (fz a b)\<^sup>2
          = (force a b)\<^sup>2 * distSq a b / (dist_pair a b)\<^sup>2"
    unfolding fx_def fy_def fz_def distSq_def
    by (simp add: power2_eq_square add_divide_distrib algebra_simps)
  moreover have "distSq a b \<noteq> 0"
    using d assms by (metis less_irrefl zero_less_power)
  ultimately show ?thesis using d by simp
qed

lemma force_nonneg: "0 \<le> mass a \<Longrightarrow> 0 \<le> mass b \<Longrightarrow> 0 \<le> force a b"
  by (simp add: force_def G_def SOFTENING_def distSq_def)

lemma cube_root_cube:
  fixes s :: real
  assumes "0 < s"
  shows "(s powr (1 / 3)) ^ 3 = s"
  using assms by (simp add: powr_power)

lemma merge_velocity_B:
  assumes "0 < mA" "0 < mB"
  shows "((vB - f * dt / mB) * mB + (vA + f * dt / mA) * mA) / (mB + mA)
           = (mA * vA + mB * vB) / (mA + (mB::real))"
proof -
  have "(vB - f * dt / mB) * mB + (vA + f * dt / mA) * mA = mA * vA + mB * vB"
    using assms by (simp add: algebra_simps)
  then show ?thesis by (simp add: add.commute)
qed

lemma merge_velocity_A:
  assumes "0 < mA" "0 < mB"
  shows "(vA + f * dt / mA) * mA + (vB - f * dt / mB) * mB = mA * vA + mB * (vB::real)"
  using assms by (simp add: algebra_simps)

lemmas geometry_defs = dist_pair_def distSq_def dx_def dy_def dz_def combinedRadius_def
  mergeThreshold_def captureRadius_def feedingThreshold_def

lemmas pair_defs = interact_def approach_def gravity_def capture_def merge_into_def shred_def
  winner_is_B_def isBH_def force_def fx_def fy_def fz_def relVx_def relVy_def relVz_def
  radialVel_def damping_def G_def SOFTENING_def

lemmas tick_defs = frame_def PhysicsSystem_def tick_def at_call_def older_def advance_def

lemmas example_defs = hole_at_def dwarf_at_def body_def vec_def registry_def
  small_star_def big_star_def hole_A_def hole_B_def prey_C_def quasar_Q_def
  hole_first_def dwarf_first_def fed_dwarf_def three_bodies_def cloud_X_def sample_run_def
  fed_then_merging_def two_feeders_def

lemma frame_paused: "frame delta 0 st = st"
  by (simp add: frame_def tick_def)

section \<open>Merger: mass, momentum and volume\<close>

text \<open>
  The merging iteration, on the objects the loop mutates. For a pair at a separation
  below the merge threshold, with positive masses and radii, the iteration returns from
  the tick with one merger callback for (winner, loser), and leaves the winner object with
  the sum of the two masses, with the mass-weighted average of the velocities the two
  bodies had when the iteration began (gravity, applied first in the iteration, does not
  change that average), and with a radius whose cube is the sum of the two cubes. The
  separation is taken non-zero: at zero separation the source divides 0 by 0 in the gravity
  step and the velocity it stores in the winner is not a number, which the numbers of
  this model do not represent.
\<close>

lemma merge_iteration_conserves:
  assumes "dist_pair a b < mergeThreshold a b" and "0 < dist_pair a b"
    and "0 < mass a" and "0 < mass b" and "0 < radius a" and "0 < radius b"
  shows "case interact dt a b of (merged, a', b', es) \<Rightarrow>
           merged \<and> es = [Merger (ident (winner a b)) (ident (loser a b))]
           \<and> (let w' = (if winner_is_B a b then b' else a') in
                mass w' = mass (winner a b) + mass (loser a b)
              \<and> pos_x (velocity w')
                  = (mass a * pos_x (velocity a) + mass b * pos_x (velocity b)) / (mass a + mass b)
              \<and> pos_y (velocity w')
                  = (mass a * pos_y (velocity a) + mass b * pos_y (velocity b)) / (mass a + mass b)
              \<and> pos_z (velocity w')
                  = (mass a * pos_z (velocity a) + mass b * pos_z (velocity b)) / (mass a + mass b)
              \<and> radius w' ^ 3 = radius (winner a b) ^ 3 + radius (loser a b) ^ 3)"
proof -
  have ra: "0 < radius a ^ 3 + radius b ^ 3" and rb: "0 < radius b ^ 3 + radius a ^ 3"
    using assms(5,6) by (simp_all add: add_pos_pos)
  show ?thesis
    using assms(1,3,4) cube_root_cube [OF ra] cube_root_cube [OF rb]
    by (simp add: interact_def approach_def gravity_def merge_into_def winner_def loser_def Let_def
        merge_velocity_A merge_velocity_B)
qed

lemma merge_iteration_example:
  "case interact 1 small_star big_star of (merged, a', b', es) \<Rightarrow>
     merged \<and> es = [Merger ''big'' ''small''] \<and> mass b' = 30
     \<and> velocity b' = vec 1 0 0 \<and> radius b' ^ 3 = 1.5 ^ 3 + 1"
proof -
  have w: "winner_is_B small_star big_star"
    by (simp add: winner_is_B_def isBH_def small_star_def big_star_def body_def)
  have "mergeThreshold small_star big_star = 1"
    by (simp add: mergeThreshold_def combinedRadius_def small_star_def big_star_def body_def)
  then have h: "dist_pair small_star big_star < mergeThreshold small_star big_star"
    by (simp add: dist_merge_example)
  have p: "0 < dist_pair small_star big_star"
    by (simp add: dist_merge_example)
  have m: "0 < mass small_star" "0 < mass big_star"
    "0 < radius small_star" "0 < radius big_star"
    by (simp_all add: small_star_def big_star_def body_def)
  show ?thesis
    using merge_iteration_conserves [OF h p m, of 1] w
    by (auto simp add: winner_def loser_def small_star_def big_star_def body_def vec_def
        split: prod.splits)
qed

text \<open>
  C1, at a black hole, a yellow dwarf of mass 40 in its feeding zone and a brown dwarf of
  mass 10 inside the merge threshold of the yellow dwarf, one frame with delta = 1 and
  timeScale = 1. The tick feeds the black hole on the yellow dwarf; this first transfer
  of the tick runs the updater of handleMassTransfer at the call, which puts a copy of
  the yellow dwarf in the pending registry. The tick then merges the brown dwarf into the
  yellow dwarf: the object the loop mutates gets mass 50, and the registry after the frame
  holds the copy, with mass 40 and radius 1.5, and no brown dwarf.
\<close>

theorem registry_misses_merged_mass:
  "map ident (fst (PhysicsSystem 1 1 fed_then_merging)) = [''hole'', ''dwarf'', ''brown'']
   \<and> map mass (fst (PhysicsSystem 1 1 fed_then_merging)) = [90, 50, 10]
   \<and> snd (PhysicsSystem 1 1 fed_then_merging)
       = [MassTransfer ''dwarf'' ''hole'' 0.1, Merger ''dwarf'' ''brown'']
   \<and> map ident (stars (frame 1 1 (registry fed_then_merging))) = [''hole'', ''dwarf'']
   \<and> map mass (stars (frame 1 1 (registry fed_then_merging))) = [90, 40]
   \<and> map radius (stars (frame 1 1 (registry fed_then_merging))) = [1, 1.5]"
  by (simp add: tick_defs geometry_defs pair_defs example_defs sqrt_256 sqrt_1089_4 sqrt_1_4
      Let_def)

section \<open>Gravity: action and reaction\<close>

text \<open>
  C3. For a pair of bodies with positive masses at a non-zero separation, the gravity step
  changes the momentum of \<open>bodyA\<close> by \<open>(fx, fy, fz) * dt\<close> and the momentum of \<open>bodyB\<close> by
  the exact negation \<open>- (fx, fy, fz) * dt\<close>, and the force \<open>(fx, fy, fz)\<close> has magnitude
  \<open>G * mA * mB / (r\<^sup>2 + S)\<close> with \<open>G = 0.5\<close> and \<open>S = 2.0\<close>.
\<close>

theorem newton3:
  assumes "0 < mass a" and "0 < mass b" and "0 < dist_pair a b"
  shows "mass a * (pos_x (velocity (fst (gravity dt a b))) - pos_x (velocity a)) = fx a b * dt
       \<and> mass a * (pos_y (velocity (fst (gravity dt a b))) - pos_y (velocity a)) = fy a b * dt
       \<and> mass a * (pos_z (velocity (fst (gravity dt a b))) - pos_z (velocity a)) = fz a b * dt
       \<and> mass b * (pos_x (velocity (snd (gravity dt a b))) - pos_x (velocity b)) = - fx a b * dt
       \<and> mass b * (pos_y (velocity (snd (gravity dt a b))) - pos_y (velocity b)) = - fy a b * dt
       \<and> mass b * (pos_z (velocity (snd (gravity dt a b))) - pos_z (velocity b)) = - fz a b * dt
       \<and> sqrt ((fx a b)\<^sup>2 + (fy a b)\<^sup>2 + (fz a b)\<^sup>2)
           = 0.5 * mass a * mass b / (distSq a b + 2.0)"
proof -
  have "sqrt ((fx a b)\<^sup>2 + (fy a b)\<^sup>2 + (fz a b)\<^sup>2) = force a b"
    using assms force_nonneg [of a b] by (simp add: sq_sum_force)
  then show ?thesis using assms(1,2)
    by (simp add: gravity_def force_def G_def SOFTENING_def)
qed

theorem newton3_witness:
  "sqrt ((fx (hole_at (vec 0 0 0) (vec 0 0 0)) (dwarf_at (vec 16 0 0) (vec 0 1 0)))\<^sup>2
       + (fy (hole_at (vec 0 0 0) (vec 0 0 0)) (dwarf_at (vec 16 0 0) (vec 0 1 0)))\<^sup>2
       + (fz (hole_at (vec 0 0 0) (vec 0 0 0)) (dwarf_at (vec 16 0 0) (vec 0 1 0)))\<^sup>2)
     = 300 / 43"
  using newton3 [of "hole_at (vec 0 0 0) (vec 0 0 0)" "dwarf_at (vec 16 0 0) (vec 0 1 0)" 1]
  by (simp add: dist_feed_example)
     (simp add: hole_at_def dwarf_at_def body_def vec_def distSq_def dx_def dy_def dz_def)

section \<open>The classifier\<close>

text \<open>
  C6. The type of the star made from a cloud is a function of the cloud's mass and of the
  draw alone, by bands: below 15 BrownDwarf; from 15 to below 30 RedDwarf; from 30 to
  below 60 YellowDwarf, or BinaryStar when the draw exceeds 0.8; from 60 to below 80
  BlueGiant; from 80 to below 90 NeutronStar; from 90 to below 98 BlackHole; from 98 on
  Quasar. Mass 10 gives BrownDwarf and mass 99 gives Quasar whatever the draw, and mass 50
  with a draw above 0.8 gives BinaryStar.
\<close>

theorem classify_bands:
  "stype (newStar cloud rand v ps) = cls_type (classify (cloud_mass cloud) rand)
   \<and> (m < 15 \<longrightarrow> cls_type (classify m rand) = BROWN_DWARF)
   \<and> (15 \<le> m \<and> m < 30 \<longrightarrow> cls_type (classify m rand) = RED_DWARF)
   \<and> (30 \<le> m \<and> m < 60 \<and> rand \<le> 0.8 \<longrightarrow> cls_type (classify m rand) = YELLOW_DWARF)
   \<and> (30 \<le> m \<and> m < 60 \<and> rand > 0.8 \<longrightarrow> cls_type (classify m rand) = BINARY_STAR)
   \<and> (60 \<le> m \<and> m < 80 \<longrightarrow> cls_type (classify m rand) = BLUE_GIANT)
   \<and> (80 \<le> m \<and> m < 90 \<longrightarrow> cls_type (classify m rand) = NEUTRON_STAR)
   \<and> (90 \<le> m \<and> m < 98 \<longrightarrow> cls_type (classify m rand) = BLACK_HOLE)
   \<and> (98 \<le> m \<longrightarrow> cls_type (classify m rand) = QUASAR)
   \<and> cls_type (classify 10 rand) = BROWN_DWARF
   \<and> (rand > 0.8 \<longrightarrow> cls_type (classify 50 rand) = BINARY_STAR)
   \<and> cls_type (classify 99 rand) = QUASAR"
  by (simp add: newStar_def classify_def Let_def)

theorem classify_bands_witness:
  "cls_type (classify 10 0.3) = BROWN_DWARF
   \<and> cls_type (classify 20 0.3) = RED_DWARF
   \<and> cls_type (classify 50 0.3) = YELLOW_DWARF
   \<and> cls_type (classify 50 0.9) = BINARY_STAR
   \<and> cls_type (classify 70 0.3) = BLUE_GIANT
   \<and> cls_type (classify 85 0.3) = NEUTRON_STAR
   \<and> cls_type (classify 95 0.3) = BLACK_HOLE
   \<and> cls_type (classify 99 0.3) = QUASAR"
  using classify_bands [of _ "0.3" _ _ 10] classify_bands [of _ "0.3" _ _ 20]
    classify_bands [of _ "0.3" _ _ 50] classify_bands [of _ "0.9" _ _ 50]
    classify_bands [of _ "0.3" _ _ 70] classify_bands [of _ "0.3" _ _ 85]
    classify_bands [of _ "0.3" _ _ 95] classify_bands [of _ "0.3" _ _ 99]
  by simp

section \<open>Pause\<close>

text \<open>
  C7. With timeScale = 0 the tick returns at once: it leaves the array of bodies as it is
  and makes no callback, so after any number of frames, whatever their deltas, the
  registry is the one before: every body's position, velocity, mass and age included.
\<close>

theorem paused_changes_nothing:
  "PhysicsSystem delta 0 ss = (ss, [])
   \<and> fold (\<lambda>delta. frame delta 0) deltas st = st"
proof
  show "PhysicsSystem delta 0 ss = (ss, [])"
    by (simp add: PhysicsSystem_def tick_def)
  show "fold (\<lambda>delta. frame delta 0) deltas st = st"
    by (induction deltas) (simp_all add: frame_paused)
qed

theorem paused_changes_nothing_witness:
  "fold (\<lambda>delta. frame delta 0) [0.016, 0.02, 0.016]
      (registry [hole_at (vec 0 0 0) (vec 0 0 0), dwarf_at (vec 16 0 0) (vec 0 1 0)])
    = registry [hole_at (vec 0 0 0) (vec 0 0 0), dwarf_at (vec 16 0 0) (vec 0 1 0)]"
  using paused_changes_nothing
    [of 0 "[]" "[0.016, 0.02, 0.016]"
        "registry [hole_at (vec 0 0 0) (vec 0 0 0), dwarf_at (vec 16 0 0) (vec 0 1 0)]"]
  by simp

section \<open>What the pairwise pass of a tick preserves\<close>

text \<open>
  A reflexive and transitive relation that one iteration on a pair establishes between
  each of the two bodies before and after holds, entry by entry, between the array before
  and after the inner and the outer iteration. The pending registry stays well formed.
\<close>

lemma update2_rel:
  assumes "\<And>x. R x x" and "R (xs ! i) a" and "R (xs ! j) b"
  shows "list_all2 R xs (xs[i := a, j := b])"
proof -
  have "R (xs ! k) (xs[i := a, j := b] ! k)" if "k < length xs" for k
  proof (cases "k = j")
    case True
    with that assms(3) show ?thesis by simp
  next
    case False
    with that assms(1,2) show ?thesis by (cases "k = i") simp_all
  qed
  then show ?thesis by (simp add: list_all2_conv_all_nth)
qed

lemma inner_loop_rel:
  assumes refl: "\<And>x. R x x"
    and trans: "\<And>x y z. R x y \<Longrightarrow> R y z \<Longrightarrow> R x z"
    and step: "\<And>dt a b m a' b' es. interact dt a b = (m, a', b', es) \<Longrightarrow> R a a' \<and> R b b'"
  shows "inner_loop dt i js ss evs p = (m, ss', evs', p') \<Longrightarrow> list_all2 R ss ss'"
proof (induction js arbitrary: ss evs p)
  case Nil
  then show ?case by (simp add: list_all2_refl refl)
next
  case (Cons j js)
  obtain mg a' b' es where I: "interact dt (ss ! i) (ss ! j) = (mg, a', b', es)"
    by (metis prod_cases4)
  from step [OF I] have one: "list_all2 R ss (ss[i := a', j := b'])"
    by (intro update2_rel refl) simp_all
  show ?case
  proof (cases mg)
    case True
    with Cons.prems I one show ?thesis by (simp add: Let_def)
  next
    case False
    with Cons.prems I obtain q where
      "inner_loop dt i js (ss[i := a', j := b']) (evs @ es) q = (m, ss', evs', p')"
      by (simp add: Let_def)
    from Cons.IH [OF this] one show ?thesis
      by (rule_tac list_all2_trans [of R R R]) (auto intro: trans)
  qed
qed

lemma outer_loop_rel:
  assumes refl: "\<And>x. R x x"
    and trans: "\<And>x y z. R x y \<Longrightarrow> R y z \<Longrightarrow> R x z"
    and step: "\<And>dt a b m a' b' es. interact dt a b = (m, a', b', es) \<Longrightarrow> R a a' \<and> R b b'"
  shows "outer_loop dt ks ss evs p = (m, ss', evs', p') \<Longrightarrow> list_all2 R ss ss'"
proof (induction ks arbitrary: ss evs p)
  case Nil
  then show ?case by (simp add: list_all2_refl refl)
next
  case (Cons i ks)
  obtain mg ss1 evs1 p1 where
    I: "inner_loop dt i [Suc i ..< length ss] ss evs p = (mg, ss1, evs1, p1)"
    by (metis prod_cases4)
  have one: "list_all2 R ss ss1"
    by (rule inner_loop_rel [OF refl trans step I])
  show ?case
  proof (cases mg)
    case True
    with Cons.prems I one show ?thesis by simp
  next
    case False
    with Cons.prems I have "outer_loop dt ks ss1 evs1 p1 = (m, ss', evs', p')"
      by simp
    from Cons.IH [OF this] one show ?thesis
      by (rule_tac list_all2_trans [of R R R]) (auto intro: trans)
  qed
qed

lemma interact_kept:
  "interact dt a b = (m, a', b', es) \<Longrightarrow> kept a a' \<and> kept b b'"
  by (auto simp: interact_def approach_def gravity_def capture_def merge_into_def shred_def
      kept_def Let_def split: if_splits)

lemma approach_kept:
  "approach dt a b = (a2, b2) \<Longrightarrow> kept a a2 \<and> kept b b2"
  by (auto simp: approach_def gravity_def capture_def kept_def Let_def split: if_splits)

lemma interact_position:
  "interact dt a b = (m, a', b', es) \<Longrightarrow> position a' = position a \<and> position b' = position b"
  by (auto simp: interact_def approach_def gravity_def capture_def merge_into_def shred_def Let_def
      split: if_splits)

lemma interact_merger:
  "interact dt a b = (m, a', b', es) \<Longrightarrow> list_ex is_Merger es = m"
  by (auto simp: interact_def approach_def gravity_def capture_def Let_def split: if_splits)

lemma interact_coupled:
  "interact dt a b = (m, a', b', es) \<Longrightarrow> (coupled a \<longrightarrow> coupled a') \<and> (coupled b \<longrightarrow> coupled b')"
  by (auto simp: interact_def approach_def gravity_def capture_def merge_into_def shred_def
      coupled_def Let_def split: if_splits)

lemma inner_loop_merger:
  "inner_loop dt i js ss evs p = (m, ss', evs', p') \<Longrightarrow>
     list_ex is_Merger evs' = (list_ex is_Merger evs \<or> m)"
proof (induction js arbitrary: ss evs p)
  case Nil
  then show ?case by auto
next
  case (Cons j js)
  obtain mg a' b' es where I: "interact dt (ss ! i) (ss ! j) = (mg, a', b', es)"
    by (metis prod_cases4)
  note E = interact_merger [OF I]
  show ?case
  proof (cases mg)
    case True
    with Cons.prems I E show ?thesis by (auto simp: Let_def)
  next
    case False
    with Cons.prems I obtain q where
      "inner_loop dt i js (ss[i := a', j := b']) (evs @ es) q = (m, ss', evs', p')"
      by (simp add: Let_def)
    from Cons.IH [OF this] E False show ?thesis by auto
  qed
qed

lemma outer_loop_merger:
  "outer_loop dt ks ss evs p = (m, ss', evs', p') \<Longrightarrow>
     list_ex is_Merger evs' = (list_ex is_Merger evs \<or> m)"
proof (induction ks arbitrary: ss evs p)
  case Nil
  then show ?case by auto
next
  case (Cons i ks)
  obtain mg ss1 evs1 p1 where
    I: "inner_loop dt i [Suc i ..< length ss] ss evs p = (mg, ss1, evs1, p1)"
    by (metis prod_cases4)
  note E = inner_loop_merger [OF I]
  show ?case
  proof (cases mg)
    case True
    with Cons.prems I E show ?thesis by auto
  next
    case False
    with Cons.prems I have "outer_loop dt ks ss1 evs1 p1 = (m, ss', evs', p')"
      by simp
    from Cons.IH [OF this] E False show ?thesis by auto
  qed
qed

lemma kept_refl: "kept s s"
  by (simp add: kept_def)

lemma kept_trans: "kept s t \<Longrightarrow> kept t u \<Longrightarrow> kept s u"
  by (simp add: kept_def)

lemma kept_ident: "kept s s' \<Longrightarrow> ident s' = ident s"
  by (simp add: kept_def)

lemma list_all2_kept_trans:
  "list_all2 kept xs ys \<Longrightarrow> list_all2 kept ys zs \<Longrightarrow> list_all2 kept xs zs"
  by (rule list_all2_trans [of kept kept kept]) (auto intro: kept_trans)

lemma list_all2_kept_map:
  assumes "\<And>s. kept s (f s)"
  shows "list_all2 kept ss (map f ss)"
  using assms by (simp add: list_all2_conv_all_nth)

lemma kept_ids: "list_all2 kept ss ss' \<Longrightarrow> map ident ss' = map ident ss"
  by (induction rule: list_all2_induct) (simp_all add: kept_def)

lemma kept_member:
  assumes "list_all2 kept ss ss'" and "s' \<in> set ss'"
  shows "\<exists>s\<in>set ss. kept s s'"
  using assms by (metis in_set_conv_nth list_all2_conv_all_nth)

lemma findIndex_less: "findIndex P xs = Some k \<Longrightarrow> k < length xs"
  by (induction xs arbitrary: k) (auto split: if_splits)

lemma notify_ok:
  assumes "list_all2 kept ss0 cur" and "pending_ok ss0 p"
  shows "pending_ok ss0 (notify cur e p)"
proof -
  have len: "length cur = length ss0"
    using assms(1) by (simp add: list_all2_lengthD)
  show ?thesis
  proof (cases e)
    case (Merger w l)
    show ?thesis
    proof (cases p)
      case Idle
      then show ?thesis
        using Merger len
        by (auto simp: pending_ok_def entry_ok_def list_all_iff distinct_map inj_on_def
            split: option.splits)
    next
      case (Pending es q)
      with assms(2) Merger show ?thesis
        by (auto simp: pending_ok_def split: option.splits)
    qed
  next
    case (MassTransfer src tgt amt)
    show ?thesis
    proof (cases p)
      case Idle
      have "pending_ok ss0
              (Pending ((map Ref [0 ..< length cur])[k := Copy k ((cur ! k)\<lparr>consumedBy := Some tgt, isShredding := True\<rparr>)]) [])"
        if k: "k < length cur" for k
      proof -
        let ?c = "(cur ! k)\<lparr>consumedBy := Some tgt, isShredding := True\<rparr>"
        let ?es = "(map Ref [0 ..< length cur])[k := Copy k ?c]"
        have "kept (ss0 ! k) (cur ! k)"
          using assms(1) k len by (simp add: list_all2_nthD)
        then have c: "entry_ok ss0 (Copy k ?c)"
          using k len by (simp add: entry_ok_def kept_def coupled_def)
        have "entry_ok ss0 e'" if "e' \<in> set ?es" for e'
        proof -
          from that have "e' = Copy k ?c \<or> e' \<in> set (map Ref [0 ..< length cur])"
            using set_update_subset_insert [of "map Ref [0 ..< length cur]" k "Copy k ?c"] by auto
          with c len show ?thesis
            by (auto simp: entry_ok_def)
        qed
        moreover have "map slot ?es = [0 ..< length cur]"
          using k by (simp add: map_update comp_def list_update_same_conv)
        ultimately show ?thesis
          by (simp add: pending_ok_def list_all_iff)
      qed
      with Idle MassTransfer show ?thesis
        by (auto simp: pending_ok_def dest: findIndex_less split: option.splits)
    next
      case (Pending es q)
      with assms(2) MassTransfer show ?thesis
        by (simp add: pending_ok_def)
    qed
  qed
qed

lemma fold_notify_ok:
  "list_all2 kept ss0 cur \<Longrightarrow> pending_ok ss0 p \<Longrightarrow> pending_ok ss0 (fold (notify cur) es p)"
  by (induction es arbitrary: p) (simp_all add: notify_ok)

lemma inner_loop_ok:
  assumes "list_all2 kept ss0 ss" and "pending_ok ss0 p"
    and "inner_loop dt i js ss evs p = (m, ss', evs', p')"
  shows "list_all2 kept ss0 ss' \<and> pending_ok ss0 p'"
  using assms
proof (induction js arbitrary: ss evs p)
  case Nil
  then show ?case by simp
next
  case (Cons j js)
  obtain mg a' b' es where I: "interact dt (ss ! i) (ss ! j) = (mg, a', b', es)"
    by (metis prod_cases4)
  obtain a2 b2 where A: "approach dt (ss ! i) (ss ! j) = (a2, b2)"
    by (metis surj_pair)
  let ?after = "ss[i := a', j := b']"
  let ?cur = "at_call dt i j ss mg ?after"
  let ?q = "fold (notify ?cur) es p"
  have 1: "list_all2 kept ss0 ?after"
    using interact_kept [OF I] Cons.prems(1)
    by (intro list_all2_kept_trans [OF Cons.prems(1)] update2_rel kept_refl) simp_all
  have "list_all2 kept ss (ss[i := a2, j := b2])"
    using approach_kept [OF A] by (intro update2_rel kept_refl) simp_all
  with Cons.prems(1) have "list_all2 kept ss0 (ss[i := a2, j := b2])"
    by (rule list_all2_kept_trans)
  with 1 A have "list_all2 kept ss0 ?cur"
    by (simp add: at_call_def)
  from fold_notify_ok [OF this Cons.prems(2)] have 2: "pending_ok ss0 ?q" .
  show ?case
  proof (cases mg)
    case True
    with Cons.prems(3) I 1 2 show ?thesis by (auto simp: Let_def)
  next
    case False
    with Cons.prems(3) I have "inner_loop dt i js ?after (evs @ es) ?q = (m, ss', evs', p')"
      by (simp add: Let_def)
    from Cons.IH [OF 1 2 this] show ?thesis .
  qed
qed

lemma outer_loop_ok:
  assumes "list_all2 kept ss0 ss" and "pending_ok ss0 p"
    and "outer_loop dt ks ss evs p = (m, ss', evs', p')"
  shows "list_all2 kept ss0 ss' \<and> pending_ok ss0 p'"
  using assms
proof (induction ks arbitrary: ss evs p)
  case Nil
  then show ?case by simp
next
  case (Cons i ks)
  obtain mg ss1 evs1 p1 where
    I: "inner_loop dt i [Suc i ..< length ss] ss evs p = (mg, ss1, evs1, p1)"
    by (metis prod_cases4)
  note 1 = inner_loop_ok [OF Cons.prems(1,2) I]
  show ?case
  proof (cases mg)
    case True
    with Cons.prems(3) I 1 show ?thesis by simp
  next
    case False
    with Cons.prems(3) I have "outer_loop dt ks ss1 evs1 p1 = (m, ss', evs', p')"
      by simp
    from Cons.IH [OF _ _ this] 1 show ?thesis by simp
  qed
qed

lemma tick_ok:
  assumes "tick delta timeScale ss = (final, evs, p)"
  shows "list_all2 kept ss final \<and> pending_ok ss p"
proof (cases "delta * timeScale = 0")
  case True
  with assms show ?thesis
    by (auto simp: tick_def pending_ok_def list_all2_refl kept_refl)
next
  case False
  let ?dt = "delta * timeScale"
  let ?aged = "if ?dt > 0 then map (older ?dt) ss else ss"
  obtain m ss2 evs2 p2 where
    O: "outer_loop ?dt [0 ..< length ?aged] ?aged [] Idle = (m, ss2, evs2, p2)"
    by (metis prod_cases4)
  have 1: "list_all2 kept ss ?aged"
    by (auto intro!: list_all2_kept_map simp: older_def kept_def list_all2_refl)
  have "pending_ok ss Idle" by (simp add: pending_ok_def)
  from outer_loop_ok [OF 1 this O] have 2: "list_all2 kept ss ss2" "pending_ok ss p2"
    by simp_all
  have 3: "list_all2 kept ss2 (map (advance ?dt) ss2)"
    by (rule list_all2_kept_map) (simp add: advance_def kept_def)
  have "final = (if m then ss2 else map (advance ?dt) ss2) \<and> p = p2"
    using assms False O unfolding tick_def Let_def by (auto split: if_splits)
  with 2 3 show ?thesis
    by (auto intro: list_all2_kept_trans)
qed

lemma updater_step:
  assumes "s' \<in> set (updater e xs)"
  shows "\<exists>s\<in>set xs. kept s s'"
proof (cases e)
  case (Merger w l)
  with assms show ?thesis by (auto intro: kept_refl)
next
  case (MassTransfer src tgt amt)
  have "list_all2 kept xs (xs[k := (xs ! k)\<lparr>consumedBy := Some t, isShredding := True\<rparr>])" for k t
    using update2_rel [of kept xs k "(xs ! k)\<lparr>consumedBy := Some t, isShredding := True\<rparr>" k
        "(xs ! k)\<lparr>consumedBy := Some t, isShredding := True\<rparr>"]
    by (simp add: kept_def)
  then have "list_all2 kept xs (updater e xs)"
    using MassTransfer by (simp add: list_all2_refl kept_refl split: option.splits)
  with assms show ?thesis by (rule_tac kept_member)
qed

lemma updater_distinct:
  assumes "distinct (map ident xs)"
  shows "distinct (map ident (updater e xs))"
proof (cases e)
  case (Merger w l)
  with assms show ?thesis by (simp add: distinct_map_filter)
next
  case (MassTransfer src tgt amt)
  have "map ident (xs[k := (xs ! k)\<lparr>consumedBy := Some t, isShredding := True\<rparr>]) = map ident xs" for k t
    by (cases "k < length xs") (simp_all add: map_update list_update_same_conv list_update_beyond)
  with assms MassTransfer show ?thesis
    by (simp split: option.splits)
qed

lemma updater_coupled:
  assumes "list_all coupled xs"
  shows "list_all coupled (updater e xs)"
proof (cases e)
  case (Merger w l)
  with assms show ?thesis by (simp add: list_all_iff)
next
  case (MassTransfer src tgt amt)
  with assms show ?thesis
    by (auto simp: list_all_iff coupled_def
        dest!: set_update_subset_insert [THEN subsetD] split: option.splits)
qed

lemma fold_updater_step:
  "s' \<in> set (fold updater q xs) \<Longrightarrow> \<exists>s\<in>set xs. kept s s'"
proof (induction q arbitrary: xs)
  case Nil
  then show ?case by (auto intro: kept_refl)
next
  case (Cons e q)
  then obtain s1 where "s1 \<in> set (updater e xs)" "kept s1 s'"
    by auto
  with updater_step [of s1 e xs] show ?case
    by (auto intro: kept_trans)
qed

lemma fold_updater_distinct:
  "distinct (map ident xs) \<Longrightarrow> distinct (map ident (fold updater q xs))"
  by (induction q arbitrary: xs) (simp_all add: updater_distinct)

lemma fold_updater_coupled:
  "list_all coupled xs \<Longrightarrow> list_all coupled (fold updater q xs)"
  by (induction q arbitrary: xs) (simp_all add: updater_coupled)

lemma resolve_kept:
  assumes "list_all2 kept ss final" and "entry_ok ss e"
  shows "kept (ss ! slot e) (resolve final e)"
proof (cases e)
  case (Ref k)
  with assms show ?thesis
    by (simp add: entry_ok_def list_all2_nthD)
next
  case (Copy k c)
  with assms(2) show ?thesis
    by (simp add: entry_ok_def kept_def)
qed

lemma render_step:
  assumes "list_all2 kept ss final" and "pending_ok ss p" and "s' \<in> set (render final p)"
  shows "\<exists>s\<in>set ss. kept s s'"
proof (cases p)
  case Idle
  with assms(1,3) show ?thesis by (simp add: kept_member)
next
  case (Pending es q)
  with assms(3) obtain s1 where s1: "s1 \<in> set (map (resolve final) es)" "kept s1 s'"
    using fold_updater_step by fastforce
  then obtain e where e: "e \<in> set es" "s1 = resolve final e"
    by auto
  with assms(2) Pending have ok: "entry_ok ss e"
    by (simp add: pending_ok_def list_all_iff)
  from resolve_kept [OF assms(1) ok] e s1 ok show ?thesis
    by (auto simp: entry_ok_def intro: kept_trans)
qed

lemma nth_distinct_map:
  assumes "distinct xs" and "distinct ks" and "\<forall>k\<in>set ks. k < length xs"
  shows "distinct (map ((!) xs) ks)"
  using assms by (auto simp: distinct_map inj_on_def nth_eq_iff_index_eq)

lemma render_distinct:
  assumes "list_all2 kept ss final" and "pending_ok ss p" and "distinct (map ident ss)"
  shows "distinct (map ident (render final p))"
proof (cases p)
  case Idle
  with assms(1,3) show ?thesis by (simp add: kept_ids)
next
  case (Pending es q)
  with assms(2) have ok: "\<forall>e\<in>set es. entry_ok ss e" and d: "distinct (map slot es)"
    by (simp_all add: pending_ok_def list_all_iff)
  have eq: "map ident (map (resolve final) es) = map ((!) (map ident ss)) (map slot es)"
  proof -
    have "ident (resolve final e) = map ident ss ! slot e" if "e \<in> set es" for e
      using resolve_kept [OF assms(1)] ok that by (auto simp: entry_ok_def kept_def)
    then show ?thesis by simp
  qed
  have "distinct (map ((!) (map ident ss)) (map slot es))"
    using assms(3) d ok by (intro nth_distinct_map) (auto simp: entry_ok_def)
  then have "distinct (map ident (map (resolve final) es))"
    unfolding eq .
  from fold_updater_distinct [OF this] Pending show ?thesis by simp
qed

lemma list_all2_coupled:
  assumes "list_all2 (\<lambda>s s'. coupled s \<longrightarrow> coupled s') ss ss'" and "list_all coupled ss"
  shows "list_all coupled ss'"
  using assms by (induction rule: list_all2_induct) simp_all

lemma tick_coupled:
  assumes "tick delta timeScale ss = (final, evs, p)" and "list_all coupled ss"
  shows "list_all coupled final"
proof (cases "delta * timeScale = 0")
  case True
  with assms show ?thesis by (simp add: tick_def)
next
  case False
  let ?dt = "delta * timeScale"
  let ?aged = "if ?dt > 0 then map (older ?dt) ss else ss"
  obtain m ss2 evs2 p2 where
    O: "outer_loop ?dt [0 ..< length ?aged] ?aged [] Idle = (m, ss2, evs2, p2)"
    by (metis prod_cases4)
  have 1: "list_all coupled ?aged"
    using assms(2) by (simp add: list_all_iff older_def coupled_def)
  have "list_all2 (\<lambda>s s'. coupled s \<longrightarrow> coupled s') ?aged ss2"
    by (rule outer_loop_rel [where R = "\<lambda>s s'. coupled s \<longrightarrow> coupled s'", OF _ _ _ O])
       (simp_all add: interact_coupled)
  from list_all2_coupled [OF this 1] have 2: "list_all coupled ss2" .
  then have 3: "list_all coupled (map (advance ?dt) ss2)"
    by (simp add: list_all_iff advance_def coupled_def)
  have "final = (if m then ss2 else map (advance ?dt) ss2)"
    using assms(1) False O unfolding tick_def Let_def by (auto split: if_splits)
  with 2 3 show ?thesis by simp
qed

lemma render_coupled:
  assumes "list_all coupled final" and "pending_ok ss p"
    and "list_all2 kept ss final"
  shows "list_all coupled (render final p)"
proof (cases p)
  case Idle
  with assms(1) show ?thesis by simp
next
  case (Pending es q)
  have "coupled (resolve final e)" if "e \<in> set es" for e
  proof (cases e)
    case (Ref k)
    with that assms(2) Pending have "entry_ok ss (Ref k)"
      by (simp add: pending_ok_def list_all_iff)
    then have "k < length final"
      using list_all2_lengthD [OF assms(3)] by (simp add: entry_ok_def)
    with assms(1) Ref show ?thesis
      by (simp add: list_all_length)
  next
    case (Copy k c)
    with that assms(2) Pending show ?thesis
      by (auto simp: pending_ok_def list_all_iff entry_ok_def coupled_def)
  qed
  then have "list_all coupled (map (resolve final) es)"
    by (simp add: list_all_iff)
  from fold_updater_coupled [OF this] Pending show ?thesis by simp
qed

lemma frame_step:
  assumes "s' \<in> set (stars (frame delta timeScale st))"
  shows "\<exists>s\<in>set (stars st). kept s s'"
proof -
  obtain final evs p where T: "tick delta timeScale (stars st) = (final, evs, p)"
    by (metis prod_cases3)
  with assms have "s' \<in> set (render final p)"
    by (simp add: frame_def)
  with tick_ok [OF T] show ?thesis
    by (auto intro: render_step)
qed

lemma frame_distinct:
  assumes "distinct (map ident (stars st))"
  shows "distinct (map ident (stars (frame delta timeScale st)))"
proof -
  obtain final evs p where T: "tick delta timeScale (stars st) = (final, evs, p)"
    by (metis prod_cases3)
  from tick_ok [OF T] have "list_all2 kept (stars st) final" "pending_ok (stars st) p"
    by simp_all
  from render_distinct [OF this assms] T show ?thesis
    by (simp add: frame_def)
qed

lemma frame_coupled:
  assumes "list_all coupled (stars st)"
  shows "list_all coupled (stars (frame delta timeScale st))"
proof -
  obtain final evs p where T: "tick delta timeScale (stars st) = (final, evs, p)"
    by (metis prod_cases3)
  from tick_ok [OF T] have "list_all2 kept (stars st) final" "pending_ok (stars st) p"
    by simp_all
  from render_coupled [OF tick_coupled [OF T assms] this(2,1)] T show ?thesis
    by (simp add: frame_def)
qed

lemma handleMassTransfer_updater:
  "stars (handleMassTransfer sourceId targetId amount st)
     = updater (MassTransfer sourceId targetId amount) (stars st)"
  by (simp add: handleMassTransfer_def split: option.splits)

lemma handleMerger_updater:
  "stars (handleMerger winnerId loserId st) = stars st
   \<or> stars (handleMerger winnerId loserId st) = updater (Merger winnerId loserId) (stars st)"
  by (simp add: handleMerger_def split: option.splits)

lemma handleMassTransfer_kept:
  "list_all2 kept (stars st) (stars (handleMassTransfer sourceId targetId amount st))"
proof -
  have "list_all2 kept xs (xs[k := (xs ! k)\<lparr>consumedBy := Some t, isShredding := True\<rparr>])" for xs k t
    using update2_rel [of kept xs k "(xs ! k)\<lparr>consumedBy := Some t, isShredding := True\<rparr>" k
        "(xs ! k)\<lparr>consumedBy := Some t, isShredding := True\<rparr>"]
    by (simp add: kept_def)
  then show ?thesis
    by (simp add: handleMassTransfer_def list_all2_refl kept_refl split: option.splits)
qed

lemma handleMerger_subset:
  "set (stars (handleMerger winnerId loserId st)) \<subseteq> set (stars st)"
  by (auto simp: handleMerger_def split: option.splits)

lemma handleMerger_distinct:
  "distinct (map ident (stars st)) \<Longrightarrow> distinct (map ident (stars (handleMerger winnerId loserId st)))"
  by (auto simp: handleMerger_def distinct_map_filter split: option.splits)

lemma operation_step:
  assumes "s' \<in> set (stars (apply_operation opn st))"
  shows "(\<exists>s\<in>set (stars st). kept s s') \<or> ident s' \<in> set (created opn)"
proof (cases opn)
  case (Frame delta timeScale)
  with assms frame_step show ?thesis by simp
next
  case (CallMerger w l)
  with assms handleMerger_subset [of w l st] show ?thesis
    by (auto intro: kept_refl)
next
  case (CallMassTransfer src tgt amt)
  with assms show ?thesis
    by (auto intro: kept_member [OF handleMassTransfer_kept])
next
  case (Materialize cloud rand v ps)
  with assms show ?thesis
    by (auto simp: materialize_def newStar_def Let_def intro: kept_refl)
next
  case (Reset newClouds draws)
  with assms show ?thesis
    by (force simp: generateUniverse_def roguePlanet_def)
qed

lemma roguePlanet_ids:
  "map ident (map (\<lambda>(i, p, v). roguePlanet i p v) draws) = map fst draws"
  by (induction draws) (auto simp: roguePlanet_def)

lemma operation_distinct:
  assumes "distinct (map ident (stars st))" and "distinct (created opn)"
    and "list_all (\<lambda>i. i \<notin> set (map ident (stars st))) (created opn)"
  shows "distinct (map ident (stars (apply_operation opn st)))"
proof (cases opn)
  case (Frame delta timeScale)
  with assms(1) show ?thesis by (simp add: frame_distinct)
next
  case (CallMerger w l)
  with assms(1) show ?thesis by (simp add: handleMerger_distinct)
next
  case (CallMassTransfer src tgt amt)
  with assms(1) kept_ids [OF handleMassTransfer_kept, of src tgt amt st] show ?thesis by simp
next
  case (Materialize cloud rand v ps)
  with assms show ?thesis
    by (auto simp: materialize_def newStar_def Let_def)
next
  case (Reset newClouds draws)
  with assms(2) show ?thesis
    by (simp add: generateUniverse_def roguePlanet_ids del: map_map)
qed

lemma operation_coupled:
  assumes "list_all coupled (stars st)"
  shows "list_all coupled (stars (apply_operation opn st))"
proof (cases opn)
  case (Frame delta timeScale)
  with assms show ?thesis by (simp add: frame_coupled)
next
  case (CallMerger w l)
  with handleMerger_updater [of w l st] updater_coupled [OF assms, of "Merger w l"] assms
  show ?thesis by auto
next
  case (CallMassTransfer src tgt amt)
  with updater_coupled [OF assms, of "MassTransfer src tgt amt"] show ?thesis
    by (simp add: handleMassTransfer_updater)
next
  case (Materialize cloud rand v ps)
  with assms show ?thesis
    by (simp add: materialize_def newStar_def Let_def coupled_def)
next
  case (Reset newClouds draws)
  then show ?thesis
    by (auto simp: generateUniverse_def roguePlanet_def list_all_iff coupled_def)
qed

lemma run_coupled:
  "list_all coupled (stars st) \<Longrightarrow> list_all coupled (stars (run ops st))"
  by (induction ops arbitrary: st) (simp_all add: operation_coupled)

lemma run_ids:
  "s' \<in> set (stars (run ops st)) \<Longrightarrow>
     ident s' \<in> ident ` set (stars st) \<union> set (concat (map created ops))"
proof (induction ops arbitrary: st)
  case Nil
  then show ?case by auto
next
  case (Cons opn ops)
  from Cons.IH [of "apply_operation opn st"] Cons.prems
  consider s1 where "s1 \<in> set (stars (apply_operation opn st))" "ident s1 = ident s'"
    | "ident s' \<in> set (concat (map created ops))"
    by auto
  then show ?case
  proof cases
    case 1
    from operation_step [OF 1(1)] show ?thesis
    proof
      assume "\<exists>s\<in>set (stars st). kept s s1"
      then obtain s0 where "s0 \<in> set (stars st)" "ident s1 = ident s0"
        by (auto simp: kept_def)
      with 1(2) have "ident s' \<in> ident ` set (stars st)"
        by (metis image_eqI)
      then show ?thesis by simp
    next
      assume "ident s1 \<in> set (created opn)"
      with 1(2) show ?thesis by simp
    qed
  next
    case 2
    then show ?thesis by simp
  qed
qed

lemma outer_loop_positions:
  assumes "outer_loop dt ks ss evs p = (m, ss', evs', p')"
  shows "map position ss' = map position ss"
proof -
  have "list_all2 (\<lambda>s s'. position s' = position s) ss ss'"
    by (rule outer_loop_rel [where R = "\<lambda>s s'. position s' = position s", OF _ _ _ assms])
       (simp_all add: interact_position)
  then show ?thesis
    by (induction rule: list_all2_induct) simp_all
qed

lemma inner_loop_first_merge:
  assumes "inner_loop dt i js ss evs p = (True, ss', evs', p')"
  shows "\<exists>pre j post ss1 evs1 p1 a' b' es.
           js = pre @ j # post
           \<and> inner_loop dt i pre ss evs p = (False, ss1, evs1, p1)
           \<and> interact dt (ss1 ! i) (ss1 ! j) = (True, a', b', es)
           \<and> ss' = ss1[i := a', j := b'] \<and> evs' = evs1 @ es"
  using assms
proof (induction js arbitrary: ss evs p)
  case Nil
  then show ?case by simp
next
  case (Cons j js)
  obtain mg a' b' es where I: "interact dt (ss ! i) (ss ! j) = (mg, a', b', es)"
    by (metis prod_cases4)
  show ?case
  proof (cases mg)
    case True
    with Cons.prems I have "ss' = ss[i := a', j := b'] \<and> evs' = evs @ es"
      by (simp add: Let_def)
    with I True have
      "j # js = [] @ j # js \<and> inner_loop dt i [] ss evs p = (False, ss, evs, p)
       \<and> interact dt (ss ! i) (ss ! j) = (True, a', b', es)
       \<and> ss' = ss[i := a', j := b'] \<and> evs' = evs @ es"
      by simp
    then show ?thesis by blast
  next
    case False
    let ?after = "ss[i := a', j := b']"
    let ?q = "fold (notify (at_call dt i j ss mg ?after)) es p"
    from False Cons.prems I have R: "inner_loop dt i js ?after (evs @ es) ?q = (True, ss', evs', p')"
      by (simp add: Let_def)
    from Cons.IH [OF R] obtain pre k post ss1 evs1 p1 a1 b1 es1 where
      H: "js = pre @ k # post"
        "inner_loop dt i pre ?after (evs @ es) ?q = (False, ss1, evs1, p1)"
        "interact dt (ss1 ! i) (ss1 ! k) = (True, a1, b1, es1)"
        "ss' = ss1[i := a1, k := b1]" "evs' = evs1 @ es1"
      by blast
    from H(2) False I have "inner_loop dt i (j # pre) ss evs p = (False, ss1, evs1, p1)"
      by (simp add: Let_def)
    with H(1,3,4,5) have
      "j # js = (j # pre) @ k # post \<and> inner_loop dt i (j # pre) ss evs p = (False, ss1, evs1, p1)
       \<and> interact dt (ss1 ! i) (ss1 ! k) = (True, a1, b1, es1)
       \<and> ss' = ss1[i := a1, k := b1] \<and> evs' = evs1 @ es1"
      by simp
    then show ?thesis by blast
  qed
qed

lemma outer_loop_first_merge:
  assumes "outer_loop dt ks ss evs p = (True, ss', evs', p')"
  shows "\<exists>pre i post ss0 evs0 p0.
           ks = pre @ i # post
           \<and> outer_loop dt pre ss evs p = (False, ss0, evs0, p0)
           \<and> inner_loop dt i [Suc i ..< length ss0] ss0 evs0 p0 = (True, ss', evs', p')"
  using assms
proof (induction ks arbitrary: ss evs p)
  case Nil
  then show ?case by simp
next
  case (Cons i ks)
  obtain mg ss1 evs1 p1 where
    I: "inner_loop dt i [Suc i ..< length ss] ss evs p = (mg, ss1, evs1, p1)"
    by (metis prod_cases4)
  show ?case
  proof (cases mg)
    case True
    with Cons.prems I have
      "i # ks = [] @ i # ks \<and> outer_loop dt [] ss evs p = (False, ss, evs, p)
       \<and> inner_loop dt i [Suc i ..< length ss] ss evs p = (True, ss', evs', p')"
      by simp
    then show ?thesis by blast
  next
    case False
    with Cons.prems I have R: "outer_loop dt ks ss1 evs1 p1 = (True, ss', evs', p')"
      by simp
    from Cons.IH [OF R] obtain pre k post ss0 evs0 p0 where
      H: "ks = pre @ k # post" "outer_loop dt pre ss1 evs1 p1 = (False, ss0, evs0, p0)"
        "inner_loop dt k [Suc k ..< length ss0] ss0 evs0 p0 = (True, ss', evs', p')"
      by blast
    from H(2) False I have "outer_loop dt (i # pre) ss evs p = (False, ss0, evs0, p0)"
      by simp
    with H(1,3) have
      "i # ks = (i # pre) @ k # post \<and> outer_loop dt (i # pre) ss evs p = (False, ss0, evs0, p0)
       \<and> inner_loop dt k [Suc k ..< length ss0] ss0 evs0 p0 = (True, ss', evs', p')"
      by simp
    then show ?thesis by blast
  qed
qed

lemma upt_split:
  assumes "[a ..< b] = pre @ x # post"
  shows "pre = [a ..< x] \<and> a \<le> x \<and> x < b"
proof -
  have len: "length pre < b - a"
    using arg_cong [OF assms, of length] by simp
  have "[a ..< b] ! length pre = x"
    using assms by simp
  with len have x: "x = a + length pre"
    by simp
  have "pre = take (length pre) [a ..< b]"
    using assms by simp
  also have "\<dots> = [a ..< a + length pre]"
    using len by (simp add: take_upt)
  finally show ?thesis using x len by simp
qed

section \<open>The interaction flags are never cleared\<close>

text \<open>
  C10. Take a registry with distinct ids and any admissible run of operations on it
  (frames at any delta and time scale, calls of handleMerger and handleMassTransfer with
  any arguments, births from clouds, resets). A body of the registry whose id is not one
  the run gives to a new body, and that is still in the registry after the run, has
  \<open>isShredding\<close> true if it had it true before, and \<open>consumedBy\<close> set if it had it set
  before. If the two fields agree on every body before the run (\<open>isShredding\<close> true
  exactly when \<open>consumedBy\<close> is set), they agree on every body after it. A star is
  created with \<open>isShredding\<close> false and \<open>consumedBy\<close> null.
\<close>

theorem flags_never_reset:
  assumes "distinct (map ident (stars st))" and "admissible ops st"
    and "s \<in> set (stars st)" and "ident s \<notin> set (concat (map created ops))"
    and "s' \<in> set (stars (run ops st))" and "ident s' = ident s"
  shows "(isShredding s \<longrightarrow> isShredding s')
       \<and> (consumedBy s \<noteq> None \<longrightarrow> consumedBy s' \<noteq> None)
       \<and> (list_all coupled (stars st) \<longrightarrow> list_all coupled (stars (run ops st)))
       \<and> \<not> isShredding (newStar cloud rand v ps)
       \<and> consumedBy (newStar cloud rand v ps) = None"
proof -
  have "kept s s'" using assms
  proof (induction ops arbitrary: st s)
    case Nil
    then have "s' = s"
      by (simp add: distinct_map inj_on_def)
    then show ?case by (simp add: kept_refl)
  next
    case (Cons opn ops)
    let ?st1 = "apply_operation opn st"
    have d1: "distinct (map ident (stars ?st1))"
      using Cons.prems(1,2) by (simp add: operation_distinct)
    have a1: "admissible ops ?st1" using Cons.prems(2) by simp
    from run_ids [of s' ops ?st1] Cons.prems(4,5,6)
    obtain s1 where s1: "s1 \<in> set (stars ?st1)" "ident s1 = ident s"
      by auto
    with operation_step [of s1 opn st] Cons.prems(4)
    obtain s0 where s0: "s0 \<in> set (stars st)" "kept s0 s1"
      by auto
    with s1 Cons.prems(1,3) have "s0 = s"
      by (auto simp: distinct_map inj_on_def dest: kept_ident)
    moreover have "kept s1 s'"
      using Cons.IH [OF d1 a1 s1(1)] Cons.prems(4,5,6) s1(2) by simp
    ultimately show ?case using s0 by (auto intro: kept_trans)
  qed
  then show ?thesis
    by (simp add: kept_def run_coupled newStar_def Let_def)
qed

theorem flags_never_reset_witness:
  "isShredding (stars (run sample_run (registry [hole_at (vec 0 0 0) (vec 0 0 0), fed_dwarf])) ! 1)
   \<and> consumedBy (stars (run sample_run (registry [hole_at (vec 0 0 0) (vec 0 0 0), fed_dwarf])) ! 1)
       = Some ''hole''
   \<and> map ident (stars (run sample_run (registry [hole_at (vec 0 0 0) (vec 0 0 0), fed_dwarf])))
       = [''hole'', ''dwarf'', ''X'']"
proof -
  let ?st = "registry [hole_at (vec 0 0 0) (vec 0 0 0), fed_dwarf]"
  let ?s' = "stars (run sample_run ?st) ! 1"
  have ids: "map ident (stars (run sample_run ?st)) = [''hole'', ''dwarf'', ''X'']"
    and idn: "ident ?s' = ident fed_dwarf"
    and cons: "consumedBy ?s' = Some ''hole''"
    and a: "admissible sample_run ?st"
    by (simp_all add: tick_defs handleMassTransfer_def handleMerger_def materialize_def
        newStar_def geometry_defs pair_defs example_defs sqrt_256 Let_def)
  have d: "distinct (map ident (stars ?st))"
    by (simp add: example_defs)
  have m: "fed_dwarf \<in> set (stars ?st)"
    by (simp add: registry_def)
  have c: "ident fed_dwarf \<notin> set (concat (map created sample_run))"
    by (simp add: example_defs)
  have "length (stars (run sample_run ?st)) = 3"
    using ids by (metis length_map length_Cons list.size(3) numeral_3_eq_3)
  then have m': "?s' \<in> set (stars (run sample_run ?st))"
    by (intro nth_mem) simp
  have "isShredding fed_dwarf"
    by (simp add: fed_dwarf_def)
  with flags_never_reset [OF d a m c m' idn] cons ids show ?thesis
    by simp
qed

text \<open>
  A dwarf fed on for the first time by one black hole and then, in the same tick, by a
  second one: the object the loop mutates ends with \<open>consumedBy\<close> naming the second, the
  copy in the registry keeps the first. Both have the field set.
\<close>

lemma second_feeder_misses_copy:
  "map consumedBy (fst (PhysicsSystem 1 1 two_feeders)) = [None, Some ''H2'', None]
   \<and> map consumedBy (stars (frame 1 1 (registry two_feeders))) = [None, Some ''H1'', None]
   \<and> map isShredding (stars (frame 1 1 (registry two_feeders))) = [False, True, False]"
  by (simp add: tick_defs geometry_defs pair_defs example_defs sqrt_256 sqrt_1024 Let_def)

section \<open>Feeding does not move mass\<close>

text \<open>
  C2. A black hole of mass 90 (first in the array) and a yellow dwarf of mass 40, at
  distance 16 (inside the feeding zone, outside the merge zone), one frame with
  delta = 1 and timeScale = 1: the dwarf ends with \<open>isShredding\<close> true and \<open>consumedBy\<close>
  equal to the black hole's id, and with its mass still 40, not 40 - 0.1; the black hole
  keeps mass 90.
\<close>

theorem feeding_leaves_mass:
  "map mass (stars (frame 1 1 (registry hole_first))) = [90, 40]
   \<and> map isShredding (stars (frame 1 1 (registry hole_first))) = [False, True]
   \<and> map consumedBy (stars (frame 1 1 (registry hole_first))) = [None, Some ''hole'']"
  by (simp add: tick_defs geometry_defs pair_defs example_defs sqrt_256 Let_def)

lemma feeding_preserves_mass:
  assumes "\<not> dist_pair a b < mergeThreshold a b" and "interact dt a b = (m, a', b', es)"
  shows "mass a' = mass a \<and> mass b' = mass b"
  using assms
  by (auto simp: interact_def approach_def gravity_def capture_def shred_def Let_def split: if_splits)

lemma handleMassTransfer_mass:
  "map mass (stars (handleMassTransfer sourceId targetId amount st)) = map mass (stars st)"
  by (auto simp: handleMassTransfer_def map_update list_update_same_conv
      dest: findIndex_less split: option.splits)

section \<open>The spiral drag\<close>

text \<open>
  C8. The drag subtracts \<open>0.05 * dt\<close> of the relative velocity of \<open>bodyB\<close> with respect to
  \<open>bodyA\<close> from the loser's velocity. When the loser is \<open>bodyB\<close> this scales the relative
  velocity by \<open>1 - 0.05 * dt\<close>; when the loser is \<open>bodyA\<close> it scales it by \<open>1 + 0.05 * dt\<close>.
\<close>

lemma drag_on_second_indexed_loser:
  "relVx a (shred dt a b a b) = (1 - 0.05 * dt) * relVx a b
   \<and> relVy a (shred dt a b a b) = (1 - 0.05 * dt) * relVy a b
   \<and> relVz a (shred dt a b a b) = (1 - 0.05 * dt) * relVz a b"
  by (simp add: shred_def relVx_def relVy_def relVz_def Let_def field_simps)

lemma drag_on_first_indexed_loser:
  "relVx (shred dt a b b a) b = (1 + 0.05 * dt) * relVx a b
   \<and> relVy (shred dt a b b a) b = (1 + 0.05 * dt) * relVy a b
   \<and> relVz (shred dt a b b a) b = (1 + 0.05 * dt) * relVz a b"
  by (simp add: shred_def relVx_def relVy_def relVz_def Let_def field_simps)

text \<open>
  C8, at a yellow dwarf (first in the array, at rest) and a black hole 16 away moving
  across at speed 1, with dt = 1: the dwarf is the loser, the black hole's velocity is the
  one gravity left, and the relative velocity, which is \<open>(-65/258, 1, 0)\<close> after gravity,
  is \<open>1.05\<close> times that after the drag: larger, not smaller.
\<close>

theorem drag_pushes_first_indexed_loser:
  "case gravity 1 (dwarf_first ! 0) (dwarf_first ! 1) of (a1, b1) \<Rightarrow>
   case interact 1 (dwarf_first ! 0) (dwarf_first ! 1) of (merged, a', b', es) \<Rightarrow>
     es = [MassTransfer ''dwarf'' ''hole'' 0.1] \<and> velocity b' = velocity b1
     \<and> relVy a1 b1 = 1 \<and> relVy a' b' = 1.05
     \<and> relVx a1 b1 = - (65 / 258) \<and> relVx a' b' = 1.05 * - (65 / 258)"
  by (simp add: geometry_defs pair_defs example_defs sqrt_256 Let_def)

section \<open>Predator and prey\<close>

text \<open>
  C5, as stated, fails when both bodies are compact: of a black hole of mass 95 (first)
  and a quasar of mass 99 (second), the winner is the black hole, the less massive one.
\<close>

theorem both_compact_counterexample:
  "isBH hole_A \<and> isBH quasar_Q \<and> mass hole_A < mass quasar_Q
   \<and> winner hole_A quasar_Q = hole_A"
  by (simp add: winner_def winner_is_B_def isBH_def example_defs)

text \<open>
  C5, amended. If exactly one body of the pair is compact, it is the winner whatever the
  masses. If both are compact, the first-indexed body is the winner whatever the masses.
  If neither is compact, the more massive body is the winner, and on equal masses the
  first-indexed one.
\<close>

theorem predator_selection:
  "(isBH a \<and> \<not> isBH b \<longrightarrow> winner a b = a \<and> loser a b = b)
   \<and> (isBH b \<and> \<not> isBH a \<longrightarrow> winner a b = b \<and> loser a b = a)
   \<and> (isBH a \<and> isBH b \<longrightarrow> winner a b = a \<and> loser a b = b)
   \<and> (\<not> isBH a \<and> \<not> isBH b \<and> mass a < mass b \<longrightarrow> winner a b = b \<and> loser a b = a)
   \<and> (\<not> isBH a \<and> \<not> isBH b \<and> mass b \<le> mass a \<longrightarrow> winner a b = a \<and> loser a b = b)"
  by (simp add: winner_def loser_def winner_is_B_def)

theorem predator_selection_witness:
  "winner hole_A prey_C = hole_A \<and> winner prey_C hole_A = hole_A
   \<and> winner hole_A quasar_Q = hole_A \<and> winner quasar_Q hole_A = quasar_Q
   \<and> winner small_star big_star = big_star \<and> winner big_star small_star = big_star
   \<and> winner small_star small_star = small_star"
proof -
  have "isBH hole_A" "isBH quasar_Q" "\<not> isBH prey_C" "\<not> isBH small_star" "\<not> isBH big_star"
    "mass small_star < mass big_star"
    by (simp_all add: isBH_def example_defs)
  with predator_selection [of hole_A prey_C] predator_selection [of prey_C hole_A]
    predator_selection [of hole_A quasar_Q] predator_selection [of quasar_Q hole_A]
    predator_selection [of small_star big_star] predator_selection [of big_star small_star]
    predator_selection [of small_star small_star]
  show ?thesis by simp
qed

section \<open>References to a removed body\<close>

text \<open>
  C9, as stated, fails: two black holes A and B inside their merge threshold, and a dwarf
  C whose \<open>consumedBy\<close> is B. After one frame B has left the registry and C still has
  \<open>consumedBy\<close> equal to B's id.
\<close>

theorem dangling_counterexample:
  "map ident (stars (frame 1 1 (registry three_bodies))) = [''A'', ''C'']
   \<and> map consumedBy (stars (frame 1 1 (registry three_bodies))) = [None, Some ''B'']"
  by (simp add: tick_defs geometry_defs pair_defs example_defs sqrt_9_100 Let_def)

text \<open>
  C9, amended. When handleMerger finds both bodies, the registry after it is the registry
  before without the entries that have the loser's id: every other body stays as it was,
  so a body whose \<open>consumedBy\<close> is the loser's id keeps that value; only the focus moves
  from the loser to the winner. The merging iteration of the tick changes no \<open>consumedBy\<close>
  either.
\<close>

theorem merger_leaves_references:
  assumes "find (\<lambda>s. ident s = winnerId) (stars st) \<noteq> None"
    and "find (\<lambda>s. ident s = loserId) (stars st) \<noteq> None"
  shows "stars (handleMerger winnerId loserId st) = filter (\<lambda>s. ident s \<noteq> loserId) (stars st)
       \<and> (\<forall>s\<in>set (stars st). ident s \<noteq> loserId \<and> consumedBy s = Some loserId
             \<longrightarrow> s \<in> set (stars (handleMerger winnerId loserId st)))
       \<and> focusedId (handleMerger winnerId loserId st)
           = (if focusedId st = Some loserId then Some winnerId else focusedId st)
       \<and> (dist_pair a b < mergeThreshold a b \<longrightarrow>
            (case interact dt a b of (merged, a', b', es) \<Rightarrow>
               consumedBy a' = consumedBy a \<and> consumedBy b' = consumedBy b))"
  using assms
  by (auto simp: handleMerger_def interact_def approach_def gravity_def merge_into_def Let_def
      split: option.splits)

theorem merger_leaves_references_witness:
  "stars (handleMerger ''A'' ''B'' (registry three_bodies)) = [hole_A, prey_C]
   \<and> consumedBy prey_C = Some ''B''
   \<and> focusedId (handleMerger ''A'' ''B'' ((registry three_bodies)\<lparr>focusedId := Some ''B''\<rparr>))
       = Some ''A''"
proof -
  have f: "find (\<lambda>s. ident s = ''A'') (stars (registry three_bodies)) \<noteq> None"
    "find (\<lambda>s. ident s = ''B'') (stars (registry three_bodies)) \<noteq> None"
    "find (\<lambda>s. ident s = ''A'') (stars ((registry three_bodies)\<lparr>focusedId := Some ''B''\<rparr>)) \<noteq> None"
    "find (\<lambda>s. ident s = ''B'') (stars ((registry three_bodies)\<lparr>focusedId := Some ''B''\<rparr>)) \<noteq> None"
    by (simp_all add: example_defs)
  from merger_leaves_references [OF f(1,2)] merger_leaves_references [OF f(3,4)]
  show ?thesis
    by (simp add: example_defs)
qed

section \<open>The position pass\<close>

text \<open>
  C4, as stated, fails on a tick in which a pair merges: the two stars 0.3 apart, both
  moving at velocity (1, 0, 0), with delta = 1 and timeScale = 1. The more massive star
  absorbs the other and keeps velocity (1, 0, 0); both positions are the ones before the
  tick.
\<close>

theorem merge_tick_counterexample:
  "map position (fst (PhysicsSystem 1 1 [small_star, big_star])) = [vec 0 0 0, vec 0.3 0 0]
   \<and> velocity (fst (PhysicsSystem 1 1 [small_star, big_star]) ! 1) = vec 1 0 0"
  by (simp add: tick_defs geometry_defs pair_defs example_defs sqrt_9_100 Let_def)

text \<open>
  C4, amended. On a tick with dt \<noteq> 0 the pairwise loop changes no position. If the loop
  ends without a merger, the position pass then runs on its result: it leaves the
  velocities as they are and sets every body's position to its position before the tick
  plus dt times its velocity after the whole pairwise loop. If a pair merges (a merger
  callback is made exactly then), the tick returns right after that merge: the rows before
  the pair's row and the pairs before it in its row have been evaluated without a merger,
  the array the tick leaves is the one that iteration left, no further pair is evaluated
  and the position pass does not run.
\<close>

theorem positions_advance_after_pairs:
  assumes "delta * timeScale \<noteq> 0"
  shows "case outer_loop (delta * timeScale) [0 ..< length ss]
               (if delta * timeScale > 0 then map (older (delta * timeScale)) ss else ss) [] Idle
         of (merged, ss2, evs, p) \<Rightarrow>
           map position ss2 = map position ss
           \<and> list_ex is_Merger evs = merged
           \<and> PhysicsSystem delta timeScale ss
               = (if merged then ss2 else map (advance (delta * timeScale)) ss2, evs)
           \<and> (\<not> merged \<longrightarrow>
                map velocity (fst (PhysicsSystem delta timeScale ss)) = map velocity ss2
                \<and> (\<forall>k < length ss.
                     position (fst (PhysicsSystem delta timeScale ss) ! k) =
                       \<lparr>pos_x = pos_x (position (ss ! k)) + pos_x (velocity (ss2 ! k)) * (delta * timeScale),
                        pos_y = pos_y (position (ss ! k)) + pos_y (velocity (ss2 ! k)) * (delta * timeScale),
                        pos_z = pos_z (position (ss ! k)) + pos_z (velocity (ss2 ! k)) * (delta * timeScale)\<rparr>))
           \<and> (merged \<longrightarrow>
                (\<exists>i j ss0 evs0 p0 ss1 evs1 p1 a' b' es.
                   i < j \<and> j < length ss
                   \<and> outer_loop (delta * timeScale) [0 ..< i]
                       (if delta * timeScale > 0 then map (older (delta * timeScale)) ss else ss) [] Idle
                       = (False, ss0, evs0, p0)
                   \<and> inner_loop (delta * timeScale) i [Suc i ..< j] ss0 evs0 p0
                       = (False, ss1, evs1, p1)
                   \<and> interact (delta * timeScale) (ss1 ! i) (ss1 ! j) = (True, a', b', es)
                   \<and> ss2 = ss1[i := a', j := b'] \<and> evs = evs1 @ es))"
proof -
  let ?dt = "delta * timeScale"
  let ?aged = "if ?dt > 0 then map (older ?dt) ss else ss"
  obtain m ss2 evs p where
    O: "outer_loop ?dt [0 ..< length ?aged] ?aged [] Idle = (m, ss2, evs, p)"
    by (metis prod_cases4)
  have len: "length ?aged = length ss" by simp
  have pa: "map position ?aged = map position ss"
    by (simp add: older_def)
  have p2: "map position ss2 = map position ss"
    using outer_loop_positions [OF O] pa by simp
  then have l2: "length ss2 = length ss"
    by (metis length_map)
  have ev: "list_ex is_Merger evs = m"
    using outer_loop_merger [OF O] by simp
  have P: "PhysicsSystem delta timeScale ss = (if m then ss2 else map (advance ?dt) ss2, evs)"
    using assms O unfolding PhysicsSystem_def tick_def Let_def by (auto split: if_splits)
  have v: "map velocity (map (advance ?dt) ss2) = map velocity ss2"
    by (simp add: advance_def)
  have pk: "position (map (advance ?dt) ss2 ! k) =
      \<lparr>pos_x = pos_x (position (ss ! k)) + pos_x (velocity (ss2 ! k)) * ?dt,
       pos_y = pos_y (position (ss ! k)) + pos_y (velocity (ss2 ! k)) * ?dt,
       pos_z = pos_z (position (ss ! k)) + pos_z (velocity (ss2 ! k)) * ?dt\<rparr>"
    if "k < length ss" for k
  proof -
    from p2 that l2 have "position (ss2 ! k) = position (ss ! k)"
      by (metis nth_map)
    with that l2 show ?thesis by (simp add: advance_def)
  qed
  from O len have O': "outer_loop ?dt [0 ..< length ss] ?aged [] Idle = (m, ss2, evs, p)"
    by simp
  have ex: "\<exists>i j ss0 evs0 p0 ss1 evs1 p1 a' b' es.
              i < j \<and> j < length ss
              \<and> outer_loop ?dt [0 ..< i] ?aged [] Idle = (False, ss0, evs0, p0)
              \<and> inner_loop ?dt i [Suc i ..< j] ss0 evs0 p0 = (False, ss1, evs1, p1)
              \<and> interact ?dt (ss1 ! i) (ss1 ! j) = (True, a', b', es)
              \<and> ss2 = ss1[i := a', j := b'] \<and> evs = evs1 @ es" if m
  proof -
    from O' that have "outer_loop ?dt [0 ..< length ss] ?aged [] Idle = (True, ss2, evs, p)"
      by simp
    from outer_loop_first_merge [OF this] obtain pre i post ss0 evs0 p0 where
      A: "[0 ..< length ss] = pre @ i # post"
        "outer_loop ?dt pre ?aged [] Idle = (False, ss0, evs0, p0)"
        "inner_loop ?dt i [Suc i ..< length ss0] ss0 evs0 p0 = (True, ss2, evs, p)"
      by blast
    from upt_split [OF A(1)] have pre: "pre = [0 ..< i]" and i: "i < length ss"
      by simp_all
    have l0: "length ss0 = length ss"
      using outer_loop_positions [OF A(2)] pa by (metis length_map)
    from inner_loop_first_merge [OF A(3)] obtain pre' j post' ss1 evs1 p1 a' b' es where
      B: "[Suc i ..< length ss0] = pre' @ j # post'"
        "inner_loop ?dt i pre' ss0 evs0 p0 = (False, ss1, evs1, p1)"
        "interact ?dt (ss1 ! i) (ss1 ! j) = (True, a', b', es)"
        "ss2 = ss1[i := a', j := b']" "evs = evs1 @ es"
      by blast
    from upt_split [OF B(1)] l0 have pre': "pre' = [Suc i ..< j]" and j: "i < j" "j < length ss"
      by simp_all
    from A(2) B(2,3,4,5) pre pre' j show ?thesis
      by blast
  qed
  show ?thesis
    unfolding O' using p2 ev P v pk ex by simp
qed

theorem positions_advance_after_pairs_witness:
  "(case outer_loop (1 * 1) [0 ..< length hole_first]
          (if 1 * 1 > (0::real) then map (older (1 * 1)) hole_first else hole_first) [] Idle
    of (merged, ss2, evs, p) \<Rightarrow>
      \<not> merged \<and> map position ss2 = map position hole_first
      \<and> map position (fst (PhysicsSystem 1 1 hole_first))
          = [vec (10 / 129) 0 0, vec (16345 / 1032) (19 / 20) 0]
      \<and> map velocity ss2 = [vec (10 / 129) 0 0, vec (- (167 / 1032)) (19 / 20) 0])
   \<and> (case outer_loop (1 * 1) [0 ..< length three_bodies]
          (if 1 * 1 > (0::real) then map (older (1 * 1)) three_bodies else three_bodies) [] Idle
       of (merged, ss2, evs, p) \<Rightarrow>
         merged \<and> map position ss2 = map position three_bodies
         \<and> PhysicsSystem 1 1 three_bodies = (ss2, evs)
         \<and> evs = [Merger ''A'' ''B''] \<and> velocity (ss2 ! 2) = velocity prey_C)"
proof -
  have n: "1 * 1 \<noteq> (0::real)" by simp
  have e: "map position (fst (PhysicsSystem 1 1 hole_first))
             = [vec (10 / 129) 0 0, vec (16345 / 1032) (19 / 20) 0]
           \<and> map velocity (fst (PhysicsSystem 1 1 hole_first))
             = [vec (10 / 129) 0 0, vec (- (167 / 1032)) (19 / 20) 0]
           \<and> \<not> list_ex is_Merger (snd (PhysicsSystem 1 1 hole_first))"
    by (simp add: tick_defs geometry_defs pair_defs example_defs sqrt_256 Let_def)
  have f: "snd (PhysicsSystem 1 1 three_bodies) = [Merger ''A'' ''B'']
           \<and> velocity (fst (PhysicsSystem 1 1 three_bodies) ! 2) = velocity prey_C"
    by (simp add: tick_defs geometry_defs pair_defs example_defs sqrt_9_100 Let_def)
  from positions_advance_after_pairs [OF n, of hole_first] e
  have 1: "case outer_loop (1 * 1) [0 ..< length hole_first]
          (if 1 * 1 > (0::real) then map (older (1 * 1)) hole_first else hole_first) [] Idle
    of (merged, ss2, evs, p) \<Rightarrow>
      \<not> merged \<and> map position ss2 = map position hole_first
      \<and> map position (fst (PhysicsSystem 1 1 hole_first))
          = [vec (10 / 129) 0 0, vec (16345 / 1032) (19 / 20) 0]
      \<and> map velocity ss2 = [vec (10 / 129) 0 0, vec (- (167 / 1032)) (19 / 20) 0]"
    by (auto split: prod.splits if_splits)
  from positions_advance_after_pairs [OF n, of three_bodies] f
  have 2: "case outer_loop (1 * 1) [0 ..< length three_bodies]
          (if 1 * 1 > (0::real) then map (older (1 * 1)) three_bodies else three_bodies) [] Idle
       of (merged, ss2, evs, p) \<Rightarrow>
         merged \<and> map position ss2 = map position three_bodies
         \<and> PhysicsSystem 1 1 three_bodies = (ss2, evs)
         \<and> evs = [Merger ''A'' ''B''] \<and> velocity (ss2 ! 2) = velocity prey_C"
    by (auto split: prod.splits if_splits)
  from 1 2 show ?thesis ..
qed

end
